theory Spec2Isabelle
  imports Complex_Main
begin

section \<open>Values handed to the parser\<close>

text \<open>
  \<open>parseSpeedscopeProfile\<close> takes a value of type \<open>unknown\<close>: the decoded JSON tree.
  A finite number is given by its exact value; the three non-finite numbers are
  constructors of their own, since \<open>asNumber\<close> tests for them. An object is the list of
  its own properties.

  The arithmetic of the source is read twice. The sections from \<open>parseSampledProfile\<close>
  to \<open>parseSpeedscopeProfile\<close> read it exactly, with no rounding and no overflow: this is
  the reading of the claims about errors, skipped samples and invariants, and of the
  examples on small integers. The sections on double precision read every operation as
  the IEEE 754 operation of the running program: this is the reading of the claim about
  the order of the hotspots, which depends on rounding and on NaN.
\<close>

datatype jsval =
    JUndefined
  | JNull
  | JBool bool
  | JNum real
  | JNaN
  | JInfinity
  | JNegInfinity
  | JStr string
  | JArr "jsval list"
  | JObj "(string \<times> jsval) list"

type_synonym jsrecord = "(string \<times> jsval) list"

text \<open>Property read \<open>obj.key\<close>: a missing property is \<open>undefined\<close>.\<close>

definition getProp :: "jsrecord \<Rightarrow> string \<Rightarrow> jsval" where
  "getProp obj key = (case map_of obj key of None \<Rightarrow> JUndefined | Some v \<Rightarrow> v)"

text \<open>Indexed read \<open>xs[i]\<close>: past the end it is \<open>undefined\<close>.\<close>

definition arrGet :: "jsval list \<Rightarrow> nat \<Rightarrow> jsval" where
  "arrGet xs i = (if i < length xs then xs ! i else JUndefined)"

text \<open>The operator \<open>??\<close>.\<close>

definition nullish :: "jsval \<Rightarrow> jsval \<Rightarrow> jsval" where
  "nullish v d = (case v of JUndefined \<Rightarrow> d | JNull \<Rightarrow> d | _ \<Rightarrow> v)"

fun joinComma :: "string list \<Rightarrow> string" where
  "joinComma [] = []"
| "joinComma [s] = s"
| "joinComma (s # t # ss) = s @ '','' @ joinComma (t # ss)"

text \<open>
  \<open>String(v)\<close>. How the host prints a finite number is the parameter \<open>numStr\<close>; an array
  prints its elements joined by commas, with \<open>null\<close> and \<open>undefined\<close> printed empty.
\<close>

fun jsString :: "(real \<Rightarrow> string) \<Rightarrow> jsval \<Rightarrow> string" where
  "jsString numStr JUndefined = ''undefined''"
| "jsString numStr JNull = ''null''"
| "jsString numStr (JBool b) = (if b then ''true'' else ''false'')"
| "jsString numStr (JNum r) = numStr r"
| "jsString numStr JNaN = ''NaN''"
| "jsString numStr JInfinity = ''Infinity''"
| "jsString numStr JNegInfinity = ''-Infinity''"
| "jsString numStr (JStr s) = s"
| "jsString numStr (JArr xs) =
     joinComma (map (\<lambda>x. case x of JUndefined \<Rightarrow> [] | JNull \<Rightarrow> [] | _ \<Rightarrow> jsString numStr x) xs)"
| "jsString numStr (JObj kvs) = ''[object Object]''"

text \<open>A loop index in a template literal: the decimal digits of a natural number.\<close>

definition digitChar :: "nat \<Rightarrow> char" where
  "digitChar d = char_of (48 + d)"

fun natString :: "nat \<Rightarrow> string" where
  "natString n = (if n < 10 then [digitChar n] else natString (n div 10) @ [digitChar (n mod 10)])"

declare natString.simps [simp del]

section \<open>Errors\<close>

text \<open>
  The source throws one class, \<open>SpeedscopeParseError\<close>, with a message. Each message of
  the source is a constructor here, carrying the values the message interpolates.
\<close>

datatype parseError =
    ProfileNotObject
  | MissingSharedFrames
  | FramesNotNonEmptyArray
  | NoProfileEntry
  | InvalidFrameEntry nat
  | InvalidProfile nat
  | UnsupportedProfileType nat string
  | NoMeasurableActivity
  | MissingSamplesArray nat
  | InvalidWeight nat nat
  | InvalidFrameReference nat nat
  | MissingMetricsEntry nat
  | InvalidLeafFrame nat nat
  | MissingTopFrameMetrics nat
  | TooFewEvents nat
  | InvalidEventEntry nat nat
  | InvalidEventFrame nat nat
  | InvalidEventTimestamp nat nat
  | NonMonotonicTimestamps nat
  | MissingMetricsForFrame nat
  | MissingTopMetrics nat
  | UnbalancedStack nat nat "nat option" nat
  | InvalidEventType nat nat string
  | UnclosedFrames nat

section \<open>Records of the parser\<close>

record FrameMetrics =
  name :: string
  file' :: string
  selfTime :: real
  totalTime :: real
  sampleCount :: nat
  hotspotScore :: real

record Hotspot =
  hname :: string
  hfile :: string
  selfTimeMs :: real
  totalTimeMs :: real
  hsampleCount :: nat
  inclusivePct :: real
  exclusivePct :: real
  rank :: nat

record ParsedProfileSummary =
  hotspots :: "Hotspot list"
  totalSamples :: int
  profileCount :: nat

section \<open>Decoding helpers\<close>

definition asRecord :: "jsval \<Rightarrow> parseError \<Rightarrow> parseError + jsrecord" where
  "asRecord v message = (case v of JObj kvs \<Rightarrow> Inr kvs | _ \<Rightarrow> Inl message)"

definition asNumber :: "jsval \<Rightarrow> parseError \<Rightarrow> parseError + real" where
  "asNumber v message = (case v of JNum r \<Rightarrow> Inr r | _ \<Rightarrow> Inl message)"

definition asIndex :: "jsval \<Rightarrow> nat \<Rightarrow> parseError \<Rightarrow> parseError + nat" where
  "asIndex v mx message =
     (case asNumber v message of
        Inl e \<Rightarrow> Inl e
      | Inr index \<Rightarrow>
          if of_int \<lfloor>index\<rfloor> \<noteq> index \<or> index < 0 \<or> index \<ge> of_nat mx then Inl message
          else Inr (nat \<lfloor>index\<rfloor>))"

section \<open>Loops\<close>

text \<open>
  \<open>for (let i = i0; i < n; i += 1) body\<close>, where the body updates the state or throws.
  A \<open>continue\<close> is a body that returns its state early.
\<close>

function forLoop :: "nat \<Rightarrow> nat \<Rightarrow> (nat \<Rightarrow> 's \<Rightarrow> parseError + 's) \<Rightarrow> 's \<Rightarrow> parseError + 's" where
  "forLoop i n body st =
     (if i < n then
        (case body i st of Inl e \<Rightarrow> Inl e | Inr st' \<Rightarrow> forLoop (i + 1) n body st')
      else Inr st)"
  by pat_completeness auto
termination
  by (relation "measure (\<lambda>(i, n, body, st). n - i)") auto

declare forLoop.simps [simp del]

section \<open>The metrics table\<close>

text \<open>
  \<open>metricsByFrame\<close> is a \<open>Map\<close> whose keys are \<open>0 .. frames.length - 1\<close>, set in this
  order: it is the list of its values, the key being the position. \<open>get\<close> of a key that
  was never set is \<open>undefined\<close>.
\<close>

definition mapGet :: "FrameMetrics list \<Rightarrow> nat \<Rightarrow> FrameMetrics option" where
  "mapGet ms k = (if k < length ms then Some (ms ! k) else None)"

definition frameBody :: "(real \<Rightarrow> string) \<Rightarrow> jsval list \<Rightarrow> nat \<Rightarrow> FrameMetrics list
    \<Rightarrow> parseError + FrameMetrics list" where
  "frameBody numStr frames idx ms =
     (case asRecord (arrGet frames idx) (InvalidFrameEntry idx) of
        Inl e \<Rightarrow> Inl e
      | Inr frame \<Rightarrow>
          Inr (ms @ [\<lparr> name = jsString numStr (nullish (getProp frame ''name'') (JStr (''frame_'' @ natString idx))),
                      file' = jsString numStr (nullish (getProp frame ''file'') (JStr ''unknown'')),
                      selfTime = 0, totalTime = 0, sampleCount = 0, hotspotScore = 0 \<rparr>]))"

section \<open>parseSampledProfile\<close>

text \<open>The inner loop over the sample's stack (lines 174 to 188).\<close>

definition stackBody :: "jsval list \<Rightarrow> nat \<Rightarrow> nat \<Rightarrow> nat \<Rightarrow> real \<Rightarrow> nat \<Rightarrow> FrameMetrics list
    \<Rightarrow> parseError + FrameMetrics list" where
  "stackBody sampleStack frameCount profileIndex sampleIndex weightValue i ms =
     (case asIndex (arrGet sampleStack i) frameCount (InvalidFrameReference profileIndex sampleIndex) of
        Inl e \<Rightarrow> Inl e
      | Inr frameIndex \<Rightarrow>
          (case mapGet ms frameIndex of
             None \<Rightarrow> Inl (MissingMetricsEntry frameIndex)
           | Some metric \<Rightarrow>
               Inr (ms[frameIndex := metric\<lparr> totalTime := totalTime metric + weightValue,
                                            sampleCount := sampleCount metric + 1 \<rparr>])))"

text \<open>The weight of the sample (line 166).\<close>

definition resolveWeight :: "jsval list \<Rightarrow> nat \<Rightarrow> nat \<Rightarrow> parseError + real" where
  "resolveWeight weights profileIndex sampleIndex =
     (if weights \<noteq> []
      then asNumber (arrGet weights sampleIndex) (InvalidWeight profileIndex sampleIndex)
      else Inr 1)"

text \<open>
  The body of the loop over the samples (lines 159 to 202). The source adds the weight to
  \<open>observed\<close> before the walk over the stack; a throw of the walk discards both, so the
  sum is written where the body returns.
\<close>

definition sampleBody :: "jsval list \<Rightarrow> jsval list \<Rightarrow> nat \<Rightarrow> nat \<Rightarrow> nat
    \<Rightarrow> FrameMetrics list \<times> real \<Rightarrow> parseError + FrameMetrics list \<times> real" where
  "sampleBody samples weights frameCount profileIndex sampleIndex st =
     (case st of (ms, observed) \<Rightarrow>
       (case arrGet samples sampleIndex of
          JArr sampleStack \<Rightarrow>
            if sampleStack = [] then Inr (ms, observed)
            else
              (case resolveWeight weights profileIndex sampleIndex of
                 Inl e \<Rightarrow> Inl e
               | Inr weightValue \<Rightarrow>
                   if weightValue \<le> 0 then Inr (ms, observed)
                   else
                     (case forLoop 0 (length sampleStack)
                             (stackBody sampleStack frameCount profileIndex sampleIndex weightValue) ms of
                        Inl e \<Rightarrow> Inl e
                      | Inr ms1 \<Rightarrow>
                          (case asIndex (arrGet sampleStack (length sampleStack - 1)) frameCount
                                  (InvalidLeafFrame profileIndex sampleIndex) of
                             Inl e \<Rightarrow> Inl e
                           | Inr topIndex \<Rightarrow>
                               (case mapGet ms1 topIndex of
                                  None \<Rightarrow> Inl (MissingTopFrameMetrics topIndex)
                                | Some topMetric \<Rightarrow>
                                    Inr (ms1[topIndex := topMetric\<lparr> selfTime := selfTime topMetric + weightValue \<rparr>],
                                         observed + weightValue)))))
        | _ \<Rightarrow> Inr (ms, observed)))"

text \<open>\<open>Array.isArray(profile.weights) ? profile.weights : []\<close> (line 156).\<close>

definition weightsOf :: "jsrecord \<Rightarrow> jsval list" where
  "weightsOf profile = (case getProp profile ''weights'' of JArr ws \<Rightarrow> ws | _ \<Rightarrow> [])"

definition parseSampledProfile :: "jsrecord \<Rightarrow> nat \<Rightarrow> FrameMetrics list \<Rightarrow> nat
    \<Rightarrow> parseError + FrameMetrics list \<times> real" where
  "parseSampledProfile profile frameCount ms profileIndex =
     (case getProp profile ''samples'' of
        JArr samples \<Rightarrow>
          forLoop 0 (length samples)
            (sampleBody samples (weightsOf profile) frameCount profileIndex) (ms, 0)
      | _ \<Rightarrow> Inl (MissingSamplesArray profileIndex))"

section \<open>parseEventedProfile\<close>

text \<open>The loop over the active stack (lines 239 to 248).\<close>

definition activeBody :: "nat list \<Rightarrow> real \<Rightarrow> nat \<Rightarrow> FrameMetrics list \<Rightarrow> parseError + FrameMetrics list" where
  "activeBody stack delta s ms =
     (case mapGet ms (stack ! s) of
        None \<Rightarrow> Inl (MissingMetricsForFrame (stack ! s))
      | Some metric \<Rightarrow>
          Inr (ms[stack ! s := metric\<lparr> totalTime := totalTime metric + delta,
                                       sampleCount := sampleCount metric + 1 \<rparr>]))"

text \<open>The window up to the next event (lines 227 to 258), entered when the event is not the last.\<close>

definition attributeDelta :: "jsval list \<Rightarrow> nat \<Rightarrow> nat \<Rightarrow> real \<Rightarrow> nat list \<Rightarrow> FrameMetrics list \<Rightarrow> real
    \<Rightarrow> parseError + FrameMetrics list \<times> real" where
  "attributeDelta events profileIndex i at' stack ms observed =
     (case asRecord (arrGet events (i + 1)) (InvalidEventEntry profileIndex (i + 1)) of
        Inl e \<Rightarrow> Inl e
      | Inr next \<Rightarrow>
          (case asNumber (getProp next ''at'') (InvalidEventTimestamp profileIndex (i + 1)) of
             Inl e \<Rightarrow> Inl e
           | Inr nextAt \<Rightarrow>
               (let delta = nextAt - at' in
                if delta < 0 then Inl (NonMonotonicTimestamps profileIndex)
                else if delta > 0 \<and> stack \<noteq> [] then
                  (case forLoop 0 (length stack) (activeBody stack delta) ms of
                     Inl e \<Rightarrow> Inl e
                   | Inr ms1 \<Rightarrow>
                       (case mapGet ms1 (last stack) of
                          None \<Rightarrow> Inl (MissingTopMetrics (last stack))
                        | Some topMetric \<Rightarrow>
                            Inr (ms1[last stack := topMetric\<lparr> selfTime := selfTime topMetric + delta \<rparr>],
                                 observed + delta)))
                else Inr (ms, observed))))"

text \<open>
  The body of the loop over the events (lines 221 to 278). The state is the call stack
  (innermost frame last), the metrics and the observed time.
\<close>

definition eventBody :: "(real \<Rightarrow> string) \<Rightarrow> jsval list \<Rightarrow> nat \<Rightarrow> nat \<Rightarrow> nat
    \<Rightarrow> nat list \<times> FrameMetrics list \<times> real \<Rightarrow> parseError + nat list \<times> FrameMetrics list \<times> real" where
  "eventBody numStr events frameCount profileIndex i st =
     (case st of (stack, ms, observed) \<Rightarrow>
       (case asRecord (arrGet events i) (InvalidEventEntry profileIndex i) of
          Inl e \<Rightarrow> Inl e
        | Inr event \<Rightarrow>
            (let eventType = jsString numStr (nullish (getProp event ''type'') (JStr [])) in
             case asIndex (getProp event ''frame'') frameCount (InvalidEventFrame profileIndex i) of
               Inl e \<Rightarrow> Inl e
             | Inr frame \<Rightarrow>
                 (case asNumber (getProp event ''at'') (InvalidEventTimestamp profileIndex i) of
                    Inl e \<Rightarrow> Inl e
                  | Inr at' \<Rightarrow>
                      (case (if i < length events - 1
                             then attributeDelta events profileIndex i at' stack ms observed
                             else Inr (ms, observed)) of
                         Inl e \<Rightarrow> Inl e
                       | Inr (ms1, observed1) \<Rightarrow>
                           if eventType = ''O'' then Inr (stack @ [frame], ms1, observed1)
                           else if eventType = ''C'' then
                             (if stack \<noteq> [] \<and> last stack = frame
                              then Inr (butlast stack, ms1, observed1)
                              else Inl (UnbalancedStack profileIndex i
                                          (if stack = [] then None else Some (last stack)) frame))
                           else Inl (InvalidEventType profileIndex i eventType))))))"

definition parseEventedProfile :: "(real \<Rightarrow> string) \<Rightarrow> jsrecord \<Rightarrow> nat \<Rightarrow> FrameMetrics list \<Rightarrow> nat
    \<Rightarrow> parseError + FrameMetrics list \<times> real" where
  "parseEventedProfile numStr profile frameCount ms profileIndex =
     (case getProp profile ''events'' of
        JArr events \<Rightarrow>
          if length events < 2 then Inl (TooFewEvents profileIndex)
          else
            (case forLoop 0 (length events) (eventBody numStr events frameCount profileIndex) ([], ms, 0) of
               Inl e \<Rightarrow> Inl e
             | Inr (stack, ms1, observed) \<Rightarrow>
                 if stack \<noteq> [] then Inl (UnclosedFrames profileIndex) else Inr (ms1, observed))
      | _ \<Rightarrow> Inl (TooFewEvents profileIndex))"

section \<open>parseSpeedscopeProfile\<close>

text \<open>Lines 57 to 70: the frame table and the profile entries of the document.\<close>

definition loadDocument :: "jsval \<Rightarrow> parseError + jsval list \<times> jsval list" where
  "loadDocument payload =
     (case asRecord payload ProfileNotObject of
        Inl e \<Rightarrow> Inl e
      | Inr root' \<Rightarrow>
          (case asRecord (getProp root' ''shared'') MissingSharedFrames of
             Inl e \<Rightarrow> Inl e
           | Inr shared \<Rightarrow>
               (case getProp shared ''frames'' of
                  JArr frames \<Rightarrow>
                    if frames = [] then Inl FramesNotNonEmptyArray
                    else
                      (case getProp root' ''profiles'' of
                         JArr profileEntries \<Rightarrow>
                           if profileEntries = [] then Inl NoProfileEntry
                           else Inr (frames, profileEntries)
                       | _ \<Rightarrow> Inl NoProfileEntry)
                | _ \<Rightarrow> Inl FramesNotNonEmptyArray)))"

text \<open>The body of the loop over the profile entries (lines 87 to 104).\<close>

definition profileBody :: "(real \<Rightarrow> string) \<Rightarrow> nat \<Rightarrow> jsval list \<Rightarrow> nat
    \<Rightarrow> FrameMetrics list \<times> real \<Rightarrow> parseError + FrameMetrics list \<times> real" where
  "profileBody numStr frameCount profileEntries profileIndex st =
     (case st of (ms, totalObserved) \<Rightarrow>
       (case asRecord (arrGet profileEntries profileIndex) (InvalidProfile profileIndex) of
          Inl e \<Rightarrow> Inl e
        | Inr profile \<Rightarrow>
            (let profileType = jsString numStr (nullish (getProp profile ''type'') (JStr [])) in
             if profileType = ''sampled'' then
               (case parseSampledProfile profile frameCount ms profileIndex of
                  Inl e \<Rightarrow> Inl e
                | Inr (ms1, observed) \<Rightarrow> Inr (ms1, totalObserved + observed))
             else if profileType = ''evented'' then
               (case parseEventedProfile numStr profile frameCount ms profileIndex of
                  Inl e \<Rightarrow> Inl e
                | Inr (ms1, observed) \<Rightarrow> Inr (ms1, totalObserved + observed))
             else Inl (UnsupportedProfileType profileIndex profileType))))"

text \<open>
  Lines 57 to 104: the metrics table and the observed total after every profile entry,
  with the profile entries themselves.
\<close>

definition collectMetrics :: "(real \<Rightarrow> string) \<Rightarrow> jsval
    \<Rightarrow> parseError + jsval list \<times> FrameMetrics list \<times> real" where
  "collectMetrics numStr payload =
     (case loadDocument payload of
        Inl e \<Rightarrow> Inl e
      | Inr (frames, profileEntries) \<Rightarrow>
          (case forLoop 0 (length frames) (frameBody numStr frames) [] of
             Inl e \<Rightarrow> Inl e
           | Inr ms0 \<Rightarrow>
               (case forLoop 0 (length profileEntries)
                       (profileBody numStr (length frames) profileEntries) (ms0, 0) of
                  Inl e \<Rightarrow> Inl e
                | Inr (ms, totalObserved) \<Rightarrow> Inr (profileEntries, ms, totalObserved))))"

text \<open>
  \<open>Number(x.toFixed(d))\<close>: the nearest multiple of \<open>10^-d\<close>, a tie going to the larger
  magnitude; at \<open>10^21\<close> and above \<open>toFixed\<close> prints the number itself.
\<close>

definition toFixed :: "nat \<Rightarrow> real \<Rightarrow> real" where
  "toFixed d x =
     (if \<bar>x\<bar> \<ge> 10 ^ 21 then x
      else if x < 0 then - (of_int \<lfloor>(- x) * 10 ^ d + 1 / 2\<rfloor> / 10 ^ d)
      else of_int \<lfloor>x * 10 ^ d + 1 / 2\<rfloor> / 10 ^ d)"

text \<open>\<open>Math.round\<close>: a tie goes up.\<close>

definition mathRound :: "real \<Rightarrow> int" where
  "mathRound x = \<lfloor>x + 1 / 2\<rfloor>"

text \<open>The filter of line 111.\<close>

definition observedMetric :: "FrameMetrics \<Rightarrow> bool" where
  "observedMetric metric = (totalTime metric > 0 \<or> selfTime metric > 0)"

text \<open>
  The first \<open>map\<close> (lines 112 to 127), in exact arithmetic; \<open>toHotspotD\<close> below is the
  same in doubles. It also stores the unrounded score in \<open>metric.hotspotScore\<close>, which
  nothing reads afterwards.
\<close>

definition toHotspot :: "real \<Rightarrow> FrameMetrics \<Rightarrow> Hotspot" where
  "toHotspot totalObserved metric =
     (let inclusivePct = (totalTime metric / totalObserved) * 100;
          exclusivePct = (selfTime metric / totalObserved) * 100
      in \<lparr> hname = name metric, hfile = file' metric,
            selfTimeMs = toFixed 3 (selfTime metric),
            totalTimeMs = toFixed 3 (totalTime metric),
            hsampleCount = sampleCount metric,
            inclusivePct = toFixed 2 inclusivePct,
            exclusivePct = toFixed 2 exclusivePct,
            rank = 0 \<rparr>)"

text \<open>
  The score the comparator computes from a hotspot (lines 129 and 130) and the comparator
  (line 131), in exact arithmetic; \<open>scoreD\<close> and \<open>compareHotspotsD\<close> below are the same in
  doubles.
\<close>

definition score :: "Hotspot \<Rightarrow> real" where
  "score a = inclusivePct a * (6 / 10) + exclusivePct a * (4 / 10)"

definition compareHotspots :: "Hotspot \<Rightarrow> Hotspot \<Rightarrow> real" where
  "compareHotspots a b = score b - score a"

text \<open>
  \<open>Array.prototype.sort\<close> is a stable sort: an element stays before the later elements
  its comparator does not put it after. It is a stable insertion sort here.
\<close>

fun insertCmp :: "('a \<Rightarrow> 'a \<Rightarrow> real) \<Rightarrow> 'a \<Rightarrow> 'a list \<Rightarrow> 'a list" where
  "insertCmp cmp x [] = [x]"
| "insertCmp cmp x (y # ys) = (if cmp x y \<le> 0 then x # y # ys else y # insertCmp cmp x ys)"

definition sortCmp :: "('a \<Rightarrow> 'a \<Rightarrow> real) \<Rightarrow> 'a list \<Rightarrow> 'a list" where
  "sortCmp cmp xs = foldr (insertCmp cmp) xs []"

text \<open>The last \<open>map\<close> (lines 133 to 136): the rank is the position plus one.\<close>

fun assignRanks :: "nat \<Rightarrow> Hotspot list \<Rightarrow> Hotspot list" where
  "assignRanks idx [] = []"
| "assignRanks idx (item # items) = item\<lparr> rank := idx + 1 \<rparr> # assignRanks (idx + 1) items"

definition rankHotspots :: "FrameMetrics list \<Rightarrow> real \<Rightarrow> Hotspot list" where
  "rankHotspots ms totalObserved =
     assignRanks 0 (sortCmp compareHotspots (map (toHotspot totalObserved) (filter observedMetric ms)))"

definition parseSpeedscopeProfile :: "(real \<Rightarrow> string) \<Rightarrow> jsval \<Rightarrow> parseError + ParsedProfileSummary" where
  "parseSpeedscopeProfile numStr payload =
     (case collectMetrics numStr payload of
        Inl e \<Rightarrow> Inl e
      | Inr (profileEntries, ms, totalObserved) \<Rightarrow>
          if totalObserved \<le> 0 then Inl NoMeasurableActivity
          else Inr \<lparr> hotspots = rankHotspots ms totalObserved,
                     totalSamples = mathRound totalObserved,
                     profileCount = length profileEntries \<rparr>)"

section \<open>Double-precision numbers\<close>

text \<open>
  The numbers of the running program are IEEE 754 doubles. A value is a finite double
  (given by its exact value), one of the two infinities, or NaN. The sign of zero is not
  kept: the parser divides only by a total that is greater than zero, so no result
  depends on it.

  \<open>toDouble\<close> rounds an exact result to the nearest double, a tie going to the even
  significand: a number of magnitude in \<open>[2^e, 2^(e+1))\<close> is rounded to a multiple of
  \<open>2^(e-52)\<close>, below \<open>2^-1022\<close> to a multiple of \<open>2^-1074\<close>, and a rounded magnitude
  of \<open>2^1024\<close> or more is an infinity.
\<close>

datatype jsnum = Fin real | PosInf | NegInf | NaN

definition roundEven :: "real \<Rightarrow> int" where
  "roundEven r =
     (let k = \<lfloor>r\<rfloor> in
      if r - of_int k < 1 / 2 then k
      else if 1 / 2 < r - of_int k then k + 1
      else if even k then k else k + 1)"

definition quantum :: "real \<Rightarrow> real" where
  "quantum x = 2 powr of_int (max \<lfloor>log 2 x\<rfloor> (- 1022) - 52)"

definition overflowBound :: real where
  "overflowBound = 2 ^ 1024"

definition roundPos :: "real \<Rightarrow> jsnum" where
  "roundPos x =
     (let y = quantum x * of_int (roundEven (x / quantum x))
      in if overflowBound \<le> y then PosInf else Fin y)"

fun neg :: "jsnum \<Rightarrow> jsnum" where
  "neg (Fin x) = Fin (- x)"
| "neg PosInf = NegInf"
| "neg NegInf = PosInf"
| "neg NaN = NaN"

definition toDouble :: "real \<Rightarrow> jsnum" where
  "toDouble x = (if x = 0 then Fin 0 else if 0 < x then roundPos x else neg (roundPos (- x)))"







section \<open>The parser in double precision\<close>



























section \<open>The documents of the test suite\<close>

text \<open>The evented document of \<open>speedscope.test.ts\<close>.\<close>

definition eventedDoc :: jsval where
  "eventedDoc =
     JObj [(''shared'', JObj [(''frames'',
              JArr [JObj [(''name'', JStr ''main''), (''file'', JStr ''main.ts'')],
                    JObj [(''name'', JStr ''work''), (''file'', JStr ''work.ts'')]])]),
           (''profiles'', JArr [JObj [(''type'', JStr ''evented''),
              (''events'', JArr [JObj [(''type'', JStr ''O''), (''frame'', JNum 0), (''at'', JNum 0)],
                                JObj [(''type'', JStr ''O''), (''frame'', JNum 1), (''at'', JNum 2)],
                                JObj [(''type'', JStr ''C''), (''frame'', JNum 1), (''at'', JNum 6)],
                                JObj [(''type'', JStr ''C''), (''frame'', JNum 0), (''at'', JNum 10)]])]])]"

text \<open>The sampled document of \<open>speedscope.test.ts\<close>.\<close>

definition sampledDoc :: jsval where
  "sampledDoc =
     JObj [(''shared'', JObj [(''frames'',
              JArr [JObj [(''name'', JStr ''root''), (''file'', JStr ''app.ts'')],
                    JObj [(''name'', JStr ''render''), (''file'', JStr ''render.ts'')],
                    JObj [(''name'', JStr ''diff''), (''file'', JStr ''diff.ts'')]])]),
           (''profiles'', JArr [JObj [(''type'', JStr ''sampled''),
              (''samples'', JArr [JArr [JNum 0, JNum 1], JArr [JNum 0, JNum 1],
                                 JArr [JNum 0, JNum 2], JArr [JNum 0, JNum 1]]),
              (''weights'', JArr [JNum 5, JNum 3, JNum 2, JNum 4])]])]"

text \<open>What the parser returns for the two documents of the test suite.\<close>

definition sampledResult :: ParsedProfileSummary where
  "sampledResult =
     \<lparr> hotspots =
         [\<lparr> hname = ''render'', hfile = ''render.ts'', selfTimeMs = 12, totalTimeMs = 12,
             hsampleCount = 3, inclusivePct = 8571 / 100, exclusivePct = 8571 / 100, rank = 1 \<rparr>,
          \<lparr> hname = ''root'', hfile = ''app.ts'', selfTimeMs = 0, totalTimeMs = 14,
             hsampleCount = 4, inclusivePct = 100, exclusivePct = 0, rank = 2 \<rparr>,
          \<lparr> hname = ''diff'', hfile = ''diff.ts'', selfTimeMs = 2, totalTimeMs = 2,
             hsampleCount = 1, inclusivePct = 1429 / 100, exclusivePct = 1429 / 100, rank = 3 \<rparr>],
       totalSamples = 14, profileCount = 1 \<rparr>"

definition eventedResult :: ParsedProfileSummary where
  "eventedResult =
     \<lparr> hotspots =
         [\<lparr> hname = ''main'', hfile = ''main.ts'', selfTimeMs = 4, totalTimeMs = 8,
             hsampleCount = 2, inclusivePct = 100, exclusivePct = 50, rank = 1 \<rparr>,
          \<lparr> hname = ''work'', hfile = ''work.ts'', selfTimeMs = 4, totalTimeMs = 4,
             hsampleCount = 1, inclusivePct = 50, exclusivePct = 50, rank = 2 \<rparr>],
       totalSamples = 8, profileCount = 1 \<rparr>"

section \<open>Further example inputs\<close>

text \<open>A sampled profile whose second sample is \<open>null\<close> and whose third sample has weight 0.\<close>

definition skipProfile :: jsrecord where
  "skipProfile = [(''type'', JStr ''sampled''),
                  (''samples'', JArr [JArr [JNum 0], JNull, JArr [JNum 0]]),
                  (''weights'', JArr [JNum 2, JStr ''x'', JNum 0])]"

text \<open>The metrics table of a frame table with the one frame \<open>f\<close>, before any profile entry.\<close>

definition oneFrame :: "FrameMetrics list" where
  "oneFrame = [\<lparr> name = ''f'', file' = ''unknown'', selfTime = 0, totalTime = 0,
                  sampleCount = 0, hotspotScore = 0 \<rparr>]"

text \<open>A sampled profile whose \<open>weights\<close> is a string, and the same profile without \<open>weights\<close>.\<close>

definition stringWeightsProfile :: jsrecord where
  "stringWeightsProfile = [(''type'', JStr ''sampled''), (''samples'', JArr [JArr [JNum 0]]),
                           (''weights'', JStr ''heavy'')]"

definition noWeightsProfile :: jsrecord where
  "noWeightsProfile = [(''type'', JStr ''sampled''), (''samples'', JArr [JArr [JNum 0]])]"

text \<open>Two samples, one weight.\<close>

definition shortWeightsProfile :: jsrecord where
  "shortWeightsProfile = [(''type'', JStr ''sampled''),
                          (''samples'', JArr [JArr [JNum 0], JArr [JNum 0]]),
                          (''weights'', JArr [JNum 1])]"

definition shortWeightsDoc :: jsval where
  "shortWeightsDoc =
     JObj [(''shared'', JObj [(''frames'', JArr [JObj [(''name'', JStr ''f'')]])]),
           (''profiles'', JArr [JObj shortWeightsProfile])]"

text \<open>Two samples, with the weights 0 and -1.\<close>

definition zeroWeightsProfile :: jsrecord where
  "zeroWeightsProfile = [(''type'', JStr ''sampled''),
                         (''samples'', JArr [JArr [JNum 0], JArr [JNum 0]]),
                         (''weights'', JArr [JNum 0, JNum (- 1)])]"

definition zeroWeightsDoc :: jsval where
  "zeroWeightsDoc =
     JObj [(''shared'', JObj [(''frames'', JArr [JObj [(''name'', JStr ''f'')]])]),
           (''profiles'', JArr [JObj zeroWeightsProfile])]"

text \<open>An evented profile that opens frame 0 and then closes frame 1.\<close>

definition unbalancedProfile :: jsrecord where
  "unbalancedProfile = [(''type'', JStr ''evented''),
     (''events'', JArr [JObj [(''type'', JStr ''O''), (''frame'', JNum 0), (''at'', JNum 0)],
                       JObj [(''type'', JStr ''C''), (''frame'', JNum 1), (''at'', JNum 1)],
                       JObj [(''type'', JStr ''C''), (''frame'', JNum 0), (''at'', JNum 2)]])]"

definition unbalancedDoc :: jsval where
  "unbalancedDoc =
     JObj [(''shared'', JObj [(''frames'', JArr [JObj [(''name'', JStr ''f'')], JObj [(''name'', JStr ''g'')]])]),
           (''profiles'', JArr [JObj unbalancedProfile])]"

text \<open>The metrics table of the frames \<open>f\<close> and \<open>g\<close>, before any profile entry.\<close>

definition twoFrames :: "FrameMetrics list" where
  "twoFrames = [\<lparr> name = ''f'', file' = ''unknown'', selfTime = 0, totalTime = 0,
                   sampleCount = 0, hotspotScore = 0 \<rparr>,
                \<lparr> name = ''g'', file' = ''unknown'', selfTime = 0, totalTime = 0,
                   sampleCount = 0, hotspotScore = 0 \<rparr>]"

text \<open>One sample, whose stack names frame 0 twice; no weights.\<close>

definition recursionDoc :: jsval where
  "recursionDoc =
     JObj [(''shared'', JObj [(''frames'', JArr [JObj [(''name'', JStr ''fib''), (''file'', JStr ''fib.ts'')]])]),
           (''profiles'', JArr [JObj [(''type'', JStr ''sampled''),
              (''samples'', JArr [JArr [JNum 0, JNum 0]])]])]"

text \<open>A printer of numbers for the closed examples: none of them prints a number.\<close>

definition blankNumber :: "real \<Rightarrow> string" where
  "blankNumber r = []"

text \<open>
  An evented profile whose first event closes frame 0 on the empty stack at time 5, and
  whose second event has the earlier time 3.
\<close>

definition closeThenEarlierDoc :: jsval where
  "closeThenEarlierDoc =
     JObj [(''shared'', JObj [(''frames'', JArr [JObj [(''name'', JStr ''f'')]])]),
           (''profiles'', JArr [JObj [(''type'', JStr ''evented''),
              (''events'', JArr [JObj [(''type'', JStr ''C''), (''frame'', JNum 0), (''at'', JNum 5)],
                                JObj [(''type'', JStr ''C''), (''frame'', JNum 0), (''at'', JNum 3)]])]])]"




section \<open>Predicates of the invariants\<close>

text \<open>
  The invariant of the metrics table, and the relation between the table before and after
  a walk over a stack: the walk keeps every self time and lowers no total time.
\<close>

definition selfWithinTotal :: "FrameMetrics list \<Rightarrow> bool" where
  "selfWithinTotal ms = list_all (\<lambda>m. selfTime m \<le> totalTime m) ms"

definition onlyTotalGrows :: "FrameMetrics list \<Rightarrow> FrameMetrics list \<Rightarrow> bool" where
  "onlyTotalGrows ms ms' =
     (length ms' = length ms
      \<and> list_all (\<lambda>f. selfTime (ms' ! f) = selfTime (ms ! f) \<and> totalTime (ms ! f) \<le> totalTime (ms' ! f))
           [0 ..< length ms])"





section \<open>Evaluation\<close>

lemmas eval_defs =
  parseSpeedscopeProfile_def collectMetrics_def loadDocument_def asRecord_def getProp_def
  forLoop.simps frameBody_def arrGet_def nullish_def profileBody_def parseEventedProfile_def
  eventBody_def asIndex_def asNumber_def attributeDelta_def activeBody_def mapGet_def
  parseSampledProfile_def sampleBody_def resolveWeight_def stackBody_def weightsOf_def
  rankHotspots_def
  observedMetric_def toHotspot_def toFixed_def sortCmp_def compareHotspots_def score_def
  mathRound_def

lemma eventedDoc_parse: "parseSpeedscopeProfile numStr eventedDoc = Inr eventedResult"
  by (simp add: eventedDoc_def eventedResult_def eval_defs)

lemma sampledDoc_parse: "parseSpeedscopeProfile numStr sampledDoc = Inr sampledResult"
  by (simp add: sampledDoc_def sampledResult_def eval_defs)

text \<open>
  C1. On the evented document of the test suite the parser returns a total of 8, not 10:
  the window from an event to the next one is attributed to the stack as it was before
  the event, so the first window (0 to 2) meets an empty stack and is dropped, and the
  last one (6 to 10) still counts \<open>work\<close> as the innermost frame. \<open>main\<close> has a total
  time of 8 and a self time of 4, \<open>work\<close> a total time of 4 and an exclusive share of 50.
\<close>

theorem evented_example_observes_8:
  "\<exists>result main work.
     parseSpeedscopeProfile numStr eventedDoc = Inr result
   \<and> totalSamples result = 8
   \<and> hotspots result = [main, work]
   \<and> hname main = ''main'' \<and> totalTimeMs main = 8 \<and> selfTimeMs main = 4
   \<and> hname work = ''work'' \<and> totalTimeMs work = 4 \<and> exclusivePct work = 50"
  by (simp add: eventedDoc_parse) (simp add: eventedResult_def)

text \<open>
  C3. On the sampled document of the test suite the parser returns a total of 14 and an
  exclusive share of 85.71 for \<open>render\<close>, but the hotspot of rank 1 is \<open>render\<close>
  (score 85.71), with an inclusive share of 85.71; \<open>root\<close> (score 60) has rank 2.
\<close>

theorem sampled_example_ranks_render_first:
  "\<exists>result render root' diff.
     parseSpeedscopeProfile numStr sampledDoc = Inr result
   \<and> totalSamples result = 14
   \<and> hotspots result = [render, root', diff]
   \<and> hname render = ''render'' \<and> rank render = 1
   \<and> inclusivePct render = 8571 / 100 \<and> exclusivePct render = 8571 / 100
   \<and> score render = 8571 / 100
   \<and> hname root' = ''root'' \<and> rank root' = 2 \<and> inclusivePct root' = 100 \<and> score root' = 60"
  by (simp add: sampledDoc_parse) (simp add: sampledResult_def score_def)

section \<open>Loops: composition, invariants, errors, totality\<close>

lemma forLoop_done: "n \<le> i \<Longrightarrow> forLoop i n body st = Inr st"
  by (simp add: forLoop.simps)

lemma forLoop_step:
  "i < n \<Longrightarrow> forLoop i n body st =
     (case body i st of Inl e \<Rightarrow> Inl e | Inr st' \<Rightarrow> forLoop (Suc i) n body st')"
  by (subst forLoop.simps) (simp split: sum.splits)

lemma forLoop_split:
  "i \<le> k \<Longrightarrow> k \<le> n \<Longrightarrow>
   forLoop i n body st = (case forLoop i k body st of Inl e \<Rightarrow> Inl e | Inr st' \<Rightarrow> forLoop k n body st')"
proof (induction i k body st rule: forLoop.induct)
  case (1 i k body st)
  show ?case
  proof (cases "i < k")
    case True
    with "1.prems" have "i < n" by simp
    show ?thesis
    proof (cases "body i st")
      case (Inl e)
      with True \<open>i < n\<close> show ?thesis by (simp add: forLoop_step)
    next
      case (Inr s)
      with True "1.prems" have "forLoop (i + 1) n body s =
          (case forLoop (i + 1) k body s of Inl e \<Rightarrow> Inl e | Inr st' \<Rightarrow> forLoop k n body st')"
        by (intro "1.IH") simp_all
      with True \<open>i < n\<close> Inr show ?thesis by (simp add: forLoop_step)
    qed
  next
    case False
    with "1.prems" have "i = k" by simp
    then show ?thesis by (simp add: forLoop_done)
  qed
qed

lemma forLoop_invariant:
  assumes "forLoop i n body st = Inr st'" and "i \<le> n" and "P i st"
    and "\<And>j s s'. i \<le> j \<Longrightarrow> j < n \<Longrightarrow> P j s \<Longrightarrow> body j s = Inr s' \<Longrightarrow> P (Suc j) s'"
  shows "P n st'"
  using assms
proof (induction i n body st rule: forLoop.induct)
  case (1 i n body st)
  show ?case
  proof (cases "i < n")
    case True
    with "1.prems"(1) obtain s where s: "body i st = Inr s" and rest: "forLoop (i + 1) n body s = Inr st'"
      by (auto simp: forLoop_step split: sum.splits)
    have "P (Suc i) s" using "1.prems"(4) [of i st s] True "1.prems"(3) s by simp
    then show ?thesis
      using "1.IH" [OF True s rest] True "1.prems"(4) by simp
  next
    case False
    with "1.prems" show ?thesis by (simp add: forLoop_done)
  qed
qed

lemma forLoop_error:
  assumes "forLoop i n body st = Inl e" and "i \<le> n" and "P i st"
    and "\<And>j s s'. i \<le> j \<Longrightarrow> j < n \<Longrightarrow> P j s \<Longrightarrow> body j s = Inr s' \<Longrightarrow> P (Suc j) s'"
    and "\<And>j s. i \<le> j \<Longrightarrow> j < n \<Longrightarrow> P j s \<Longrightarrow> body j s = Inl e \<Longrightarrow> Q"
  shows Q
  using assms
proof (induction i n body st rule: forLoop.induct)
  case (1 i n body st)
  show ?case
  proof (cases "i < n")
    case True
    show ?thesis
    proof (cases "body i st")
      case (Inl e')
      with True "1.prems"(1) have "e' = e" by (simp add: forLoop_step)
      with Inl True "1.prems"(3,5) show ?thesis by blast
    next
      case (Inr s)
      with True "1.prems"(1) have rest: "forLoop (i + 1) n body s = Inl e" by (simp add: forLoop_step)
      have "P (Suc i) s" using "1.prems"(4) [of i st s] True "1.prems"(3) Inr by simp
      show ?thesis
      proof (rule "1.IH" [OF True Inr rest])
        show "i + 1 \<le> n" using True by simp
        show "P (i + 1) s" using \<open>P (Suc i) s\<close> by simp
        show "\<And>j s s'. i + 1 \<le> j \<Longrightarrow> j < n \<Longrightarrow> P j s \<Longrightarrow> body j s = Inr s' \<Longrightarrow> P (Suc j) s'"
          using "1.prems"(4) by simp
        show "\<And>j s. i + 1 \<le> j \<Longrightarrow> j < n \<Longrightarrow> P j s \<Longrightarrow> body j s = Inl e \<Longrightarrow> Q"
        proof -
          fix j s
          assume "i + 1 \<le> j" "j < n" "P j s" "body j s = Inl e"
          then show Q using "1.prems"(5) [of j s] by simp
        qed
      qed
    qed
  next
    case False
    with "1.prems" show ?thesis by (simp add: forLoop_done)
  qed
qed

lemma forLoop_total:
  assumes "i \<le> n" and "P i st"
    and "\<And>j s. i \<le> j \<Longrightarrow> j < n \<Longrightarrow> P j s \<Longrightarrow> \<exists>s'. body j s = Inr s' \<and> P (Suc j) s'"
  shows "\<exists>st'. forLoop i n body st = Inr st' \<and> P n st'"
  using assms
proof (induction i n body st rule: forLoop.induct)
  case (1 i n body st)
  show ?case
  proof (cases "i < n")
    case True
    with "1.prems" obtain s where s: "body i st = Inr s" and P: "P (Suc i) s" by blast
    have "\<exists>st'. forLoop (i + 1) n body s = Inr st' \<and> P n st'"
      using "1.IH" [OF True s] True P "1.prems"(3) by simp
    with True s show ?thesis by (simp add: forLoop_step)
  next
    case False
    with "1.prems" show ?thesis by (simp add: forLoop_done)
  qed
qed

section \<open>Sampled profiles: skipped samples and weights\<close>

lemma forLoop_fails_at:
  assumes "k < n" and "forLoop 0 k body st0 = Inr st" and "body k st = Inl e"
  shows "forLoop 0 n body st0 = Inl e"
  using assms forLoop_split [of 0 k n body st0] by (simp add: forLoop_step)

lemma forLoop_skip:
  assumes "k < n" and "\<And>st. body k st = Inr st"
  shows "forLoop 0 n body st0 =
     (case forLoop 0 k body st0 of Inl e \<Rightarrow> Inl e | Inr st \<Rightarrow> forLoop (Suc k) n body st)"
  using assms forLoop_split [of 0 k n body st0] by (simp add: forLoop_step split: sum.splits)

lemma parse_fails_in_profile:
  assumes "loadDocument payload = Inr (frames, profileEntries)"
    and "forLoop 0 (length frames) (frameBody numStr frames) [] = Inr ms0"
    and "profileIndex < length profileEntries"
    and "forLoop 0 profileIndex (profileBody numStr (length frames) profileEntries) (ms0, 0) = Inr st"
    and "profileBody numStr (length frames) profileEntries profileIndex st = Inl e"
  shows "parseSpeedscopeProfile numStr payload = Inl e"
proof -
  have "forLoop 0 (length profileEntries) (profileBody numStr (length frames) profileEntries) (ms0, 0) = Inl e"
    using assms(3-5) by (rule forLoop_fails_at)
  with assms(1,2) show ?thesis
    by (simp add: parseSpeedscopeProfile_def collectMetrics_def)
qed

lemma sampleBody_skip:
  assumes "(\<forall>sampleStack. arrGet samples k \<noteq> JArr sampleStack)
         \<or> arrGet samples k = JArr []
         \<or> (\<exists>sampleStack w. arrGet samples k = JArr sampleStack \<and> weights \<noteq> []
               \<and> arrGet weights k = JNum w \<and> w \<le> 0)"
  shows "sampleBody samples weights frameCount profileIndex k st = Inr st"
  using assms
  by (cases st; cases "arrGet samples k")
     (auto simp: sampleBody_def resolveWeight_def asNumber_def)

text \<open>
  C6. A sample that is not an array, or is the empty array, or whose weight resolves to
  a number that is at most 0, leaves the metrics and the observed total as they are and
  raises nothing; the profile is parsed as if the loop went from the samples before it
  straight to the samples after it.
\<close>

theorem skipped_sample_contributes_nothing:
  assumes "getProp profile ''samples'' = JArr samples"
    and "k < length samples"
    and "(\<forall>sampleStack. arrGet samples k \<noteq> JArr sampleStack)
         \<or> arrGet samples k = JArr []
         \<or> (\<exists>sampleStack w. arrGet samples k = JArr sampleStack \<and> weightsOf profile \<noteq> []
               \<and> arrGet (weightsOf profile) k = JNum w \<and> w \<le> 0)"
  shows "sampleBody samples (weightsOf profile) frameCount profileIndex k (ms, observed) = Inr (ms, observed)
       \<and> parseSampledProfile profile frameCount ms0 profileIndex =
           (case forLoop 0 k (sampleBody samples (weightsOf profile) frameCount profileIndex) (ms0, 0) of
              Inl e \<Rightarrow> Inl e
            | Inr st \<Rightarrow>
                forLoop (Suc k) (length samples)
                  (sampleBody samples (weightsOf profile) frameCount profileIndex) st)"
proof -
  have skip: "\<And>st. sampleBody samples (weightsOf profile) frameCount profileIndex k st = Inr st"
    using assms(3) by (rule sampleBody_skip)
  show ?thesis
    using skip forLoop_skip [OF assms(2), of "sampleBody samples (weightsOf profile) frameCount profileIndex", OF skip]
    by (simp add: parseSampledProfile_def assms(1))
qed

theorem skipped_sample_contributes_nothing_witness:
  "sampleBody [JArr [JNum 0], JNull, JArr [JNum 0]] (weightsOf skipProfile) 1 0 2 (oneFrame, 2) = Inr (oneFrame, 2)
   \<and> parseSampledProfile skipProfile 1 oneFrame 0 =
       (case forLoop 0 2 (sampleBody [JArr [JNum 0], JNull, JArr [JNum 0]] (weightsOf skipProfile) 1 0) (oneFrame, 0) of
          Inl e \<Rightarrow> Inl e
        | Inr st \<Rightarrow>
            forLoop (Suc 2) (length [JArr [JNum 0], JNull, JArr [JNum 0]])
              (sampleBody [JArr [JNum 0], JNull, JArr [JNum 0]] (weightsOf skipProfile) 1 0) st)"
  by (rule skipped_sample_contributes_nothing)
     (simp_all add: skipProfile_def getProp_def arrGet_def weightsOf_def)

text \<open>
  C10. When \<open>profile.weights\<close> is not an array, the weights are the empty list, every
  sample's weight resolves to 1, and the profile is parsed as a profile with the same
  samples and no \<open>weights\<close> property is.
\<close>

theorem non_array_weights_ignored:
  assumes "\<forall>ws. getProp profile ''weights'' \<noteq> JArr ws"
    and "getProp profile' ''weights'' = JUndefined"
    and "getProp profile' ''samples'' = getProp profile ''samples''"
  shows "weightsOf profile = []
       \<and> resolveWeight (weightsOf profile) profileIndex sampleIndex = Inr 1
       \<and> parseSampledProfile profile frameCount ms profileIndex
           = parseSampledProfile profile' frameCount ms profileIndex"
proof -
  have w: "weightsOf profile = []"
    using assms(1) by (cases "getProp profile ''weights''") (simp_all add: weightsOf_def)
  have w': "weightsOf profile' = []"
    using assms(2) by (simp add: weightsOf_def)
  have "parseSampledProfile profile frameCount ms profileIndex
          = parseSampledProfile profile' frameCount ms profileIndex"
    unfolding parseSampledProfile_def w w' assms(3) ..
  then show ?thesis
    by (simp add: w resolveWeight_def)
qed

theorem non_array_weights_ignored_witness:
  "weightsOf stringWeightsProfile = []
   \<and> resolveWeight (weightsOf stringWeightsProfile) 0 0 = Inr 1
   \<and> parseSampledProfile stringWeightsProfile 1 oneFrame 0 = parseSampledProfile noWeightsProfile 1 oneFrame 0"
  by (rule non_array_weights_ignored)
     (simp_all add: stringWeightsProfile_def noWeightsProfile_def getProp_def)

text \<open>
  C9. With a non-empty weights array, a sample that is a non-empty array at an index
  past the end of the weights makes the whole parse fail with the invalid-weight error
  of that index, once the loops have reached it.
\<close>

theorem short_weights_fail:
  assumes "loadDocument payload = Inr (frames, profileEntries)"
    and "forLoop 0 (length frames) (frameBody numStr frames) [] = Inr ms0"
    and "profileIndex < length profileEntries"
    and "forLoop 0 profileIndex (profileBody numStr (length frames) profileEntries) (ms0, 0) = Inr (ms, totalObserved)"
    and "arrGet profileEntries profileIndex = JObj profile"
    and "jsString numStr (nullish (getProp profile ''type'') (JStr [])) = ''sampled''"
    and "getProp profile ''samples'' = JArr samples"
    and "getProp profile ''weights'' = JArr weights"
    and "weights \<noteq> []"
    and "k < length samples"
    and "length weights \<le> k"
    and "forLoop 0 k (sampleBody samples weights (length frames) profileIndex) (ms, 0) = Inr st"
    and "arrGet samples k = JArr sampleStack"
    and "sampleStack \<noteq> []"
  shows "parseSpeedscopeProfile numStr payload = Inl (InvalidWeight profileIndex k)"
proof -
  have rw: "resolveWeight weights profileIndex k = Inl (InvalidWeight profileIndex k)"
    using assms(9,11) by (simp add: resolveWeight_def arrGet_def asNumber_def)
  have "sampleBody samples weights (length frames) profileIndex k st = Inl (InvalidWeight profileIndex k)"
    using assms(13,14) rw by (cases st) (simp add: sampleBody_def)
  with assms(10,12)
  have "forLoop 0 (length samples) (sampleBody samples weights (length frames) profileIndex) (ms, 0)
          = Inl (InvalidWeight profileIndex k)"
    by (intro forLoop_fails_at)
  then have "parseSampledProfile profile (length frames) ms profileIndex = Inl (InvalidWeight profileIndex k)"
    using assms(7,8) by (simp add: parseSampledProfile_def weightsOf_def)
  then have "profileBody numStr (length frames) profileEntries profileIndex (ms, totalObserved)
          = Inl (InvalidWeight profileIndex k)"
    using assms(5,6) by (simp add: profileBody_def asRecord_def)
  with assms(1-4) show ?thesis by (rule parse_fails_in_profile)
qed

theorem short_weights_fail_witness:
  "parseSpeedscopeProfile (\<lambda>_. []) shortWeightsDoc = Inl (InvalidWeight 0 1)"
  by (rule short_weights_fail [where frames = "[JObj [(''name'', JStr ''f'')]]"
         and profileEntries = "[JObj shortWeightsProfile]" and profile = shortWeightsProfile
         and samples = "[JArr [JNum 0], JArr [JNum 0]]" and weights = "[JNum 1]"
         and ms0 = oneFrame and ms = oneFrame and totalObserved = 0 and sampleStack = "[JNum 0]"
         and st = "([\<lparr> name = ''f'', file' = ''unknown'', selfTime = 1, totalTime = 1,
                       sampleCount = 1, hotspotScore = 0 \<rparr>], 1)"])
     (simp_all add: shortWeightsDoc_def shortWeightsProfile_def oneFrame_def eval_defs)

section \<open>No measurable activity\<close>

lemma forLoop_error_body:
  assumes "forLoop i n body st = Inl e"
  shows "\<exists>j s. i \<le> j \<and> j < n \<and> body j s = Inl e"
proof (cases "i \<le> n")
  case True
  show ?thesis
    by (rule forLoop_error [OF assms True, where P = "\<lambda>_ _. True"]) blast+
next
  case False
  with assms show ?thesis by (simp add: forLoop_done)
qed

lemma forLoop_id:
  assumes "\<And>j. i \<le> j \<Longrightarrow> j < n \<Longrightarrow> body j st = Inr st"
  shows "forLoop i n body st = Inr st"
proof (cases "i \<le> n")
  case True
  have "\<exists>st'. forLoop i n body st = Inr st' \<and> st' = st"
    by (rule forLoop_total [OF True, where P = "\<lambda>_ s. s = st"]) (simp_all add: assms)
  then show ?thesis by simp
next
  case False
  then show ?thesis by (simp add: forLoop_done)
qed

lemma asRecord_Inl: "asRecord v m = Inl e \<Longrightarrow> e = m"
  by (cases v) (simp_all add: asRecord_def)

lemma asNumber_Inl: "asNumber v m = Inl e \<Longrightarrow> e = m"
  by (cases v) (simp_all add: asNumber_def)

lemma asIndex_Inl: "asIndex v mx m = Inl e \<Longrightarrow> e = m"
  by (auto simp: asIndex_def split: sum.splits if_splits dest: asNumber_Inl)

lemma loadDocument_error: "loadDocument payload \<noteq> Inl NoMeasurableActivity"
  by (auto simp: loadDocument_def split: sum.splits jsval.splits if_splits dest: asRecord_Inl)

lemma frameBody_error: "frameBody numStr frames idx ms \<noteq> Inl NoMeasurableActivity"
  by (auto simp: frameBody_def split: sum.splits dest: asRecord_Inl)

lemma stackBody_error: "stackBody sampleStack fc pidx sidx w i ms \<noteq> Inl NoMeasurableActivity"
  by (auto simp: stackBody_def split: sum.splits option.splits dest: asIndex_Inl)

lemma resolveWeight_error: "resolveWeight weights pidx sidx \<noteq> Inl NoMeasurableActivity"
  by (auto simp: resolveWeight_def dest: asNumber_Inl)

lemma stackLoop_error:
  "forLoop i n (stackBody sampleStack fc pidx sidx w) ms \<noteq> Inl NoMeasurableActivity"
  using forLoop_error_body [of i n "stackBody sampleStack fc pidx sidx w" ms NoMeasurableActivity]
  by (auto simp: stackBody_error)

lemma sampleBody_error: "sampleBody samples weights fc pidx sidx st \<noteq> Inl NoMeasurableActivity"
  by (cases st)
     (auto simp: sampleBody_def resolveWeight_error stackLoop_error
           split: jsval.splits sum.splits option.splits if_splits dest: asIndex_Inl)

lemma parseSampledProfile_error: "parseSampledProfile profile fc ms pidx \<noteq> Inl NoMeasurableActivity"
  using forLoop_error_body [of 0 _ "sampleBody _ (weightsOf profile) fc pidx" "(ms, 0)" NoMeasurableActivity]
  by (auto simp: parseSampledProfile_def sampleBody_error split: jsval.splits)

lemma activeLoop_error: "forLoop i n (activeBody stack delta) ms \<noteq> Inl NoMeasurableActivity"
  using forLoop_error_body [of i n "activeBody stack delta" ms NoMeasurableActivity]
  by (auto simp: activeBody_def split: option.splits)

lemma attributeDelta_error:
  "attributeDelta events pidx i at' stack ms observed \<noteq> Inl NoMeasurableActivity"
  by (auto simp: attributeDelta_def Let_def activeLoop_error
           split: sum.splits option.splits if_splits dest: asRecord_Inl asNumber_Inl)

lemma eventBody_error: "eventBody numStr events fc pidx i st \<noteq> Inl NoMeasurableActivity"
  by (cases st)
     (auto simp: eventBody_def Let_def attributeDelta_error
           split: sum.splits if_splits dest: asRecord_Inl asNumber_Inl asIndex_Inl)

lemma parseEventedProfile_error:
  "parseEventedProfile numStr profile fc ms pidx \<noteq> Inl NoMeasurableActivity"
  using forLoop_error_body [of 0 _ "eventBody numStr _ fc pidx" "([], ms, 0)" NoMeasurableActivity]
  by (auto simp: parseEventedProfile_def eventBody_error split: jsval.splits sum.splits if_splits)

lemma profileBody_error: "profileBody numStr fc profileEntries pidx st \<noteq> Inl NoMeasurableActivity"
  by (cases st)
     (auto simp: profileBody_def Let_def parseSampledProfile_error parseEventedProfile_error
           split: sum.splits if_splits dest: asRecord_Inl)

lemma collectMetrics_error: "collectMetrics numStr payload \<noteq> Inl NoMeasurableActivity"
proof
  assume a: "collectMetrics numStr payload = Inl NoMeasurableActivity"
  show False
  proof (cases "loadDocument payload")
    case (Inl e)
    with a show False by (simp add: collectMetrics_def loadDocument_error)
  next
    case (Inr fp)
    obtain frames profileEntries where fp: "fp = (frames, profileEntries)" by (cases fp)
    show False
    proof (cases "forLoop 0 (length frames) (frameBody numStr frames) []")
      case (Inl e)
      with a Inr fp have "e = NoMeasurableActivity" by (simp add: collectMetrics_def)
      with Inl forLoop_error_body [of 0 "length frames" "frameBody numStr frames" "[]" NoMeasurableActivity]
      show False by (auto simp: frameBody_error)
    next
      case ms0: (Inr ms0)
      from a Inr fp ms0
      have "forLoop 0 (length profileEntries) (profileBody numStr (length frames) profileEntries) (ms0, 0)
              = Inl NoMeasurableActivity"
        by (simp add: collectMetrics_def split: sum.splits prod.splits)
      with forLoop_error_body [of 0 "length profileEntries"
              "profileBody numStr (length frames) profileEntries" "(ms0, 0)" NoMeasurableActivity]
      show False by (auto simp: profileBody_error)
    qed
  qed
qed

lemma frames_loop_total:
  assumes "\<forall>f \<in> set frames. \<exists>kvs. f = JObj kvs"
  shows "\<exists>ms0. forLoop 0 (length frames) (frameBody numStr frames) [] = Inr ms0"
proof -
  have "\<exists>st'. forLoop 0 (length frames) (frameBody numStr frames) [] = Inr st' \<and> True"
  proof (rule forLoop_total [where P = "\<lambda>_ _. True"])
    fix j s
    assume "j < length frames"
    then have "frames ! j \<in> set frames" by simp
    with assms obtain kvs where "frames ! j = JObj kvs" by blast
    with \<open>j < length frames\<close>
    show "\<exists>s'. frameBody numStr frames j s = Inr s' \<and> True"
      by (simp add: frameBody_def arrGet_def asRecord_def)
  qed simp_all
  then show ?thesis by blast
qed

lemma non_positive_profile_observes_nothing:
  assumes "getProp profile ''samples'' = JArr samples"
    and "getProp profile ''weights'' = JArr weights"
    and "weights \<noteq> []"
    and "length samples \<le> length weights"
    and "\<forall>w \<in> set weights. \<exists>r. w = JNum r \<and> r \<le> 0"
  shows "parseSampledProfile profile frameCount ms profileIndex = Inr (ms, 0)"
proof -
  have "forLoop 0 (length samples) (sampleBody samples weights frameCount profileIndex) (ms, 0) = Inr (ms, 0)"
  proof (rule forLoop_id)
    fix j
    assume j: "j < length samples"
    with assms(4) have "weights ! j \<in> set weights" by simp
    with assms(5) obtain r where r: "weights ! j = JNum r" "r \<le> 0" by blast
    with j assms(4) have w: "arrGet weights j = JNum r" by (simp add: arrGet_def)
    show "sampleBody samples weights frameCount profileIndex j (ms, 0) = Inr (ms, 0)"
    proof (rule sampleBody_skip)
      show "(\<forall>sampleStack. arrGet samples j \<noteq> JArr sampleStack)
         \<or> arrGet samples j = JArr []
         \<or> (\<exists>sampleStack w. arrGet samples j = JArr sampleStack \<and> weights \<noteq> []
               \<and> arrGet weights j = JNum w \<and> w \<le> 0)"
        using w r(2) assms(3) by (cases "arrGet samples j") auto
    qed
  qed
  then show ?thesis
    using assms(1,2) by (simp add: parseSampledProfile_def weightsOf_def)
qed

text \<open>
  C5. The parse fails with the no-measurable-activity error exactly when every profile
  entry was processed without an error and the observed total is at most 0. In
  particular it fails so on a document whose frames are objects and whose profile entries
  are all sampled profiles with a weights array that is non-empty, at least as long as the
  samples, and holds only numbers that are at most 0.
\<close>

theorem no_measurable_activity:
  "(parseSpeedscopeProfile numStr payload = Inl NoMeasurableActivity
      \<longleftrightarrow> (\<exists>profileEntries ms totalObserved.
             collectMetrics numStr payload = Inr (profileEntries, ms, totalObserved) \<and> totalObserved \<le> 0))
   \<and> (loadDocument payload = Inr (frames, entries)
        \<and> (\<forall>f \<in> set frames. \<exists>kvs. f = JObj kvs)
        \<and> (\<forall>p \<in> set entries. \<exists>profile samples weights.
               p = JObj profile
             \<and> jsString numStr (nullish (getProp profile ''type'') (JStr [])) = ''sampled''
             \<and> getProp profile ''samples'' = JArr samples
             \<and> getProp profile ''weights'' = JArr weights
             \<and> weights \<noteq> [] \<and> length samples \<le> length weights
             \<and> (\<forall>w \<in> set weights. \<exists>r. w = JNum r \<and> r \<le> 0))
      \<longrightarrow> parseSpeedscopeProfile numStr payload = Inl NoMeasurableActivity)"
proof (intro conjI impI)
  show "parseSpeedscopeProfile numStr payload = Inl NoMeasurableActivity
      \<longleftrightarrow> (\<exists>profileEntries ms totalObserved.
             collectMetrics numStr payload = Inr (profileEntries, ms, totalObserved) \<and> totalObserved \<le> 0)"
    using collectMetrics_error [of numStr payload]
    by (auto simp: parseSpeedscopeProfile_def split: sum.splits if_splits)
next
  assume a: "loadDocument payload = Inr (frames, entries)
        \<and> (\<forall>f \<in> set frames. \<exists>kvs. f = JObj kvs)
        \<and> (\<forall>p \<in> set entries. \<exists>profile samples weights.
               p = JObj profile
             \<and> jsString numStr (nullish (getProp profile ''type'') (JStr [])) = ''sampled''
             \<and> getProp profile ''samples'' = JArr samples
             \<and> getProp profile ''weights'' = JArr weights
             \<and> weights \<noteq> [] \<and> length samples \<le> length weights
             \<and> (\<forall>w \<in> set weights. \<exists>r. w = JNum r \<and> r \<le> 0))"
  then have doc: "loadDocument payload = Inr (frames, entries)"
    and fr: "\<forall>f \<in> set frames. \<exists>kvs. f = JObj kvs" by blast+
  from fr obtain ms0 where ms0: "forLoop 0 (length frames) (frameBody numStr frames) [] = Inr ms0"
    using frames_loop_total by blast
  have "forLoop 0 (length entries) (profileBody numStr (length frames) entries) (ms0, 0) = Inr (ms0, 0)"
  proof (rule forLoop_id)
    fix j
    assume j: "j < length entries"
    then have "entries ! j \<in> set entries" by simp
    with a obtain profile samples weights where p: "entries ! j = JObj profile"
      "jsString numStr (nullish (getProp profile ''type'') (JStr [])) = ''sampled''"
      "getProp profile ''samples'' = JArr samples"
      "getProp profile ''weights'' = JArr weights"
      "weights \<noteq> []" "length samples \<le> length weights"
      "\<forall>w \<in> set weights. \<exists>r. w = JNum r \<and> r \<le> 0"
      by blast
    have "parseSampledProfile profile (length frames) ms0 j = Inr (ms0, 0)"
      using p(3-7) by (rule non_positive_profile_observes_nothing)
    with j p(1,2) show "profileBody numStr (length frames) entries j (ms0, 0) = Inr (ms0, 0)"
      by (simp add: profileBody_def arrGet_def asRecord_def)
  qed
  with doc ms0 show "parseSpeedscopeProfile numStr payload = Inl NoMeasurableActivity"
    by (simp add: parseSpeedscopeProfile_def collectMetrics_def)
qed

theorem no_measurable_activity_witness:
  "parseSpeedscopeProfile (\<lambda>_. []) zeroWeightsDoc = Inl NoMeasurableActivity
   \<and> (\<exists>profileEntries ms totalObserved.
         collectMetrics (\<lambda>_. []) zeroWeightsDoc = Inr (profileEntries, ms, totalObserved)
       \<and> totalObserved \<le> 0)"
proof -
  have h: "loadDocument zeroWeightsDoc = Inr ([JObj [(''name'', JStr ''f'')]], [JObj zeroWeightsProfile])
        \<and> (\<forall>f \<in> set [JObj [(''name'', JStr ''f'')]]. \<exists>kvs. f = JObj kvs)
        \<and> (\<forall>p \<in> set [JObj zeroWeightsProfile]. \<exists>profile samples weights.
               p = JObj profile
             \<and> jsString (\<lambda>_. []) (nullish (getProp profile ''type'') (JStr [])) = ''sampled''
             \<and> getProp profile ''samples'' = JArr samples
             \<and> getProp profile ''weights'' = JArr weights
             \<and> weights \<noteq> [] \<and> length samples \<le> length weights
             \<and> (\<forall>w \<in> set weights. \<exists>r. w = JNum r \<and> r \<le> 0))"
    by (simp add: zeroWeightsDoc_def zeroWeightsProfile_def loadDocument_def asRecord_def
          getProp_def nullish_def)
  note t = no_measurable_activity [of "\<lambda>_. []" zeroWeightsDoc
      "[JObj [(''name'', JStr ''f'')]]" "[JObj zeroWeightsProfile]"]
  from t h have 1: "parseSpeedscopeProfile (\<lambda>_. []) zeroWeightsDoc = Inl NoMeasurableActivity"
    by blast
  with t show ?thesis by blast
qed

section \<open>Total time bounds self time\<close>

lemma selfWithinTotal_nth:
  "selfWithinTotal ms \<longleftrightarrow> (\<forall>f < length ms. selfTime (ms ! f) \<le> totalTime (ms ! f))"
  by (simp add: selfWithinTotal_def list_all_length)

lemma onlyTotalGrows_nth:
  "onlyTotalGrows ms ms' \<longleftrightarrow>
     length ms' = length ms
     \<and> (\<forall>f < length ms. selfTime (ms' ! f) = selfTime (ms ! f) \<and> totalTime (ms ! f) \<le> totalTime (ms' ! f))"
  by (simp add: onlyTotalGrows_def list_all_length)

lemma onlyTotalGrows_refl: "onlyTotalGrows ms ms"
  by (simp add: onlyTotalGrows_nth)

lemma onlyTotalGrows_bump:
  assumes "onlyTotalGrows ms s" and "f < length s" and "0 \<le> w"
  shows "onlyTotalGrows ms (s[f := (s ! f)\<lparr> totalTime := totalTime (s ! f) + w, sampleCount := c \<rparr>])"
  using assms by (auto simp: onlyTotalGrows_nth nth_list_update)

lemma onlyTotalGrows_selfWithinTotal:
  "selfWithinTotal ms \<Longrightarrow> onlyTotalGrows ms ms' \<Longrightarrow> selfWithinTotal ms'"
  by (fastforce simp: selfWithinTotal_nth onlyTotalGrows_nth)

lemma asIndex_Inr:
  assumes "asIndex v mx m = Inr f"
  shows "f < mx" and "asIndex v mx m' = Inr f"
proof -
  from assms obtain r where v: "v = JNum r" and r: "of_int \<lfloor>r\<rfloor> = r" "0 \<le> r" "r < of_nat mx"
    and f: "f = nat \<lfloor>r\<rfloor>"
    by (cases v) (auto simp: asIndex_def asNumber_def split: if_splits)
  from r have "\<lfloor>r\<rfloor> < int mx" by linarith
  with r f show "f < mx" by linarith
  from v r f show "asIndex v mx m' = Inr f" by (simp add: asIndex_def asNumber_def)
qed

lemma stackBody_Inr:
  assumes "stackBody sampleStack fc pidx sidx w i ms = Inr ms'"
  shows "\<exists>f. asIndex (arrGet sampleStack i) fc (InvalidFrameReference pidx sidx) = Inr f \<and> f < length ms
           \<and> ms' = ms[f := (ms ! f)\<lparr> totalTime := totalTime (ms ! f) + w,
                                       sampleCount := sampleCount (ms ! f) + 1 \<rparr>]"
  using assms
  by (auto simp: stackBody_def mapGet_def split: sum.splits option.splits if_splits)

lemma stackLoop_grows:
  assumes "forLoop 0 n (stackBody sampleStack fc pidx sidx w) ms = Inr ms'" and "0 \<le> w"
  shows "onlyTotalGrows ms ms'
       \<and> (0 < n \<longrightarrow> (\<exists>f < length ms.
              asIndex (arrGet sampleStack (n - 1)) fc (InvalidFrameReference pidx sidx) = Inr f
            \<and> totalTime (ms ! f) + w \<le> totalTime (ms' ! f)))"
proof (rule forLoop_invariant [OF assms(1), where P = "\<lambda>j s. onlyTotalGrows ms s
       \<and> (0 < j \<longrightarrow> (\<exists>f < length ms.
              asIndex (arrGet sampleStack (j - 1)) fc (InvalidFrameReference pidx sidx) = Inr f
            \<and> totalTime (ms ! f) + w \<le> totalTime (s ! f)))"])
  show "0 \<le> n" by simp
  show "onlyTotalGrows ms ms \<and> (0 < (0::nat) \<longrightarrow> (\<exists>f < length ms.
              asIndex (arrGet sampleStack (0 - 1)) fc (InvalidFrameReference pidx sidx) = Inr f
            \<and> totalTime (ms ! f) + w \<le> totalTime (ms ! f)))"
    by (simp add: onlyTotalGrows_refl)
next
  fix j s s'
  assume P: "onlyTotalGrows ms s \<and> (0 < j \<longrightarrow> (\<exists>f < length ms.
              asIndex (arrGet sampleStack (j - 1)) fc (InvalidFrameReference pidx sidx) = Inr f
            \<and> totalTime (ms ! f) + w \<le> totalTime (s ! f)))"
    and b: "stackBody sampleStack fc pidx sidx w j s = Inr s'"
  from stackBody_Inr [OF b] obtain f
    where f: "asIndex (arrGet sampleStack j) fc (InvalidFrameReference pidx sidx) = Inr f" "f < length s"
      and s': "s' = s[f := (s ! f)\<lparr> totalTime := totalTime (s ! f) + w,
                                     sampleCount := sampleCount (s ! f) + 1 \<rparr>]"
    by blast
  from P have g: "onlyTotalGrows ms s" by simp
  have g': "onlyTotalGrows ms s'"
    unfolding s' using g f(2) assms(2) by (rule onlyTotalGrows_bump)
  from g f(2) have fl: "f < length ms" and le: "totalTime (ms ! f) \<le> totalTime (s ! f)"
    by (simp_all add: onlyTotalGrows_nth)
  have "totalTime (ms ! f) + w \<le> totalTime (s' ! f)"
    using le f(2) by (simp add: s')
  with f(1) fl g'
  show "onlyTotalGrows ms s' \<and> (0 < Suc j \<longrightarrow> (\<exists>f < length ms.
              asIndex (arrGet sampleStack (Suc j - 1)) fc (InvalidFrameReference pidx sidx) = Inr f
            \<and> totalTime (ms ! f) + w \<le> totalTime (s' ! f)))"
    by auto
qed

lemma self_update_ok:
  assumes "selfWithinTotal ms" and "onlyTotalGrows ms ms1" and "f < length ms"
    and "totalTime (ms ! f) + w \<le> totalTime (ms1 ! f)"
  shows "selfWithinTotal (ms1[f := (ms1 ! f)\<lparr> selfTime := selfTime (ms1 ! f) + w \<rparr>])"
  using assms
  by (auto simp: selfWithinTotal_nth onlyTotalGrows_nth nth_list_update) fastforce+

lemma sampleBody_ok:
  assumes "sampleBody samples weights fc pidx k (ms, observed) = Inr (ms', observed')"
    and "selfWithinTotal ms"
  shows "selfWithinTotal ms'"
proof (cases "arrGet samples k")
  case (JArr sampleStack)
  show ?thesis
  proof (cases "sampleStack = []")
    case True
    with assms JArr show ?thesis by (simp add: sampleBody_def)
  next
    case ne: False
    show ?thesis
    proof (cases "resolveWeight weights pidx k")
      case (Inl e)
      with assms JArr ne show ?thesis by (simp add: sampleBody_def)
    next
      case (Inr w)
      show ?thesis
      proof (cases "w \<le> 0")
        case True
        with assms JArr ne Inr show ?thesis by (simp add: sampleBody_def)
      next
        case False
        with assms(1) JArr ne Inr obtain ms1 f
          where l: "forLoop 0 (length sampleStack) (stackBody sampleStack fc pidx k w) ms = Inr ms1"
            and t: "asIndex (arrGet sampleStack (length sampleStack - 1)) fc (InvalidLeafFrame pidx k) = Inr f"
            and m: "ms' = ms1[f := (ms1 ! f)\<lparr> selfTime := selfTime (ms1 ! f) + w \<rparr>]"
          by (auto simp: sampleBody_def mapGet_def split: sum.splits option.splits if_splits)
        from False have w: "0 \<le> w" by simp
        from ne have n: "0 < length sampleStack" by simp
        from stackLoop_grows [OF l w] n obtain g
          where g: "onlyTotalGrows ms ms1" "g < length ms"
            "asIndex (arrGet sampleStack (length sampleStack - 1)) fc (InvalidFrameReference pidx k) = Inr g"
            "totalTime (ms ! g) + w \<le> totalTime (ms1 ! g)"
          by blast
        from asIndex_Inr(2) [OF g(3), of "InvalidLeafFrame pidx k"] t have "g = f" by simp
        with g show ?thesis unfolding m using assms(2) by (intro self_update_ok) simp_all
      qed
    qed
  qed
qed (use assms in \<open>simp_all add: sampleBody_def\<close>)

lemma sampleLoop_ok:
  assumes "forLoop i n (sampleBody samples weights fc pidx) (ms, observed) = Inr (ms', observed')"
    and "selfWithinTotal ms"
  shows "selfWithinTotal ms'"
proof (cases "i \<le> n")
  case True
  have "selfWithinTotal (fst (ms', observed'))"
    by (rule forLoop_invariant [OF assms(1) True, where P = "\<lambda>_ s. selfWithinTotal (fst s)"])
       (use assms(2) in \<open>auto intro: sampleBody_ok\<close>)
  then show ?thesis by simp
next
  case False
  with assms show ?thesis by (simp add: forLoop_done)
qed

lemma parseSampledProfile_ok:
  assumes "parseSampledProfile profile fc ms pidx = Inr (ms', observed)" and "selfWithinTotal ms"
  shows "selfWithinTotal ms'"
  using assms
  by (auto simp: parseSampledProfile_def split: jsval.splits intro: sampleLoop_ok)

lemma activeBody_Inr:
  assumes "activeBody stack delta j ms = Inr ms'"
  shows "stack ! j < length ms
       \<and> ms' = ms[stack ! j := (ms ! (stack ! j))\<lparr> totalTime := totalTime (ms ! (stack ! j)) + delta,
                                                    sampleCount := sampleCount (ms ! (stack ! j)) + 1 \<rparr>]"
  using assms by (auto simp: activeBody_def mapGet_def split: option.splits if_splits)

lemma activeLoop_grows:
  assumes "forLoop 0 n (activeBody stack delta) ms = Inr ms'" and "0 \<le> delta"
  shows "onlyTotalGrows ms ms'
       \<and> (0 < n \<longrightarrow> stack ! (n - 1) < length ms
              \<and> totalTime (ms ! (stack ! (n - 1))) + delta \<le> totalTime (ms' ! (stack ! (n - 1))))"
proof (rule forLoop_invariant [OF assms(1), where P = "\<lambda>j s. onlyTotalGrows ms s
       \<and> (0 < j \<longrightarrow> stack ! (j - 1) < length ms
              \<and> totalTime (ms ! (stack ! (j - 1))) + delta \<le> totalTime (s ! (stack ! (j - 1))))"])
  show "0 \<le> n" by simp
  show "onlyTotalGrows ms ms \<and> (0 < (0::nat) \<longrightarrow> stack ! (0 - 1) < length ms
              \<and> totalTime (ms ! (stack ! (0 - 1))) + delta \<le> totalTime (ms ! (stack ! (0 - 1))))"
    by (simp add: onlyTotalGrows_refl)
next
  fix j s s'
  assume P: "onlyTotalGrows ms s \<and> (0 < j \<longrightarrow> stack ! (j - 1) < length ms
              \<and> totalTime (ms ! (stack ! (j - 1))) + delta \<le> totalTime (s ! (stack ! (j - 1))))"
    and b: "activeBody stack delta j s = Inr s'"
  from activeBody_Inr [OF b]
  have f: "stack ! j < length s"
    and s': "s' = s[stack ! j := (s ! (stack ! j))\<lparr> totalTime := totalTime (s ! (stack ! j)) + delta,
                                     sampleCount := sampleCount (s ! (stack ! j)) + 1 \<rparr>]"
    by simp_all
  from P have g: "onlyTotalGrows ms s" by simp
  have g': "onlyTotalGrows ms s'"
    unfolding s' using g f assms(2) by (rule onlyTotalGrows_bump)
  from g f have fl: "stack ! j < length ms"
    and le: "totalTime (ms ! (stack ! j)) \<le> totalTime (s ! (stack ! j))"
    by (simp_all add: onlyTotalGrows_nth)
  have "totalTime (ms ! (stack ! j)) + delta \<le> totalTime (s' ! (stack ! j))"
    using le f by (simp add: s')
  with fl g'
  show "onlyTotalGrows ms s' \<and> (0 < Suc j \<longrightarrow> stack ! (Suc j - 1) < length ms
              \<and> totalTime (ms ! (stack ! (Suc j - 1))) + delta \<le> totalTime (s' ! (stack ! (Suc j - 1))))"
    by simp
qed

lemma attributeDelta_ok:
  assumes "attributeDelta events pidx i at' stack ms observed = Inr (ms', observed')"
    and "selfWithinTotal ms"
  shows "selfWithinTotal ms'"
proof -
  from assms(1) obtain nx nextAt
    where nx: "asRecord (arrGet events (i + 1)) (InvalidEventEntry pidx (i + 1)) = Inr nx"
      and na: "asNumber (getProp nx ''at'') (InvalidEventTimestamp pidx (i + 1)) = Inr nextAt"
    by (auto simp: attributeDelta_def split: sum.splits)
  show ?thesis
  proof (cases "nextAt - at' > 0 \<and> stack \<noteq> []")
    case True
    with assms(1) nx na obtain ms1
      where l: "forLoop 0 (length stack) (activeBody stack (nextAt - at')) ms = Inr ms1"
        and m: "ms' = ms1[last stack := (ms1 ! last stack)\<lparr> selfTime := selfTime (ms1 ! last stack) + (nextAt - at') \<rparr>]"
      by (auto simp: attributeDelta_def Let_def mapGet_def split: sum.splits option.splits if_splits)
    from True have d: "0 \<le> nextAt - at'" and n: "0 < length stack" by simp_all
    from True have lst: "last stack = stack ! (length stack - 1)" by (simp add: last_conv_nth)
    from activeLoop_grows [OF l d] n lst
    have "onlyTotalGrows ms ms1" "last stack < length ms"
      "totalTime (ms ! last stack) + (nextAt - at') \<le> totalTime (ms1 ! last stack)"
      by simp_all
    then show ?thesis unfolding m using assms(2) by (intro self_update_ok) simp_all
  next
    case False
    with assms nx na show ?thesis
      by (auto simp: attributeDelta_def Let_def split: if_splits)
  qed
qed

lemma eventBody_ok:
  assumes "eventBody numStr events fc pidx i (stack, ms, observed) = Inr (stack', ms', observed')"
    and "selfWithinTotal ms"
  shows "selfWithinTotal ms'"
  using assms
  by (auto simp: eventBody_def Let_def split: sum.splits if_splits prod.splits
           intro: attributeDelta_ok)

lemma eventLoop_ok:
  assumes "forLoop i n (eventBody numStr events fc pidx) (stack, ms, observed) = Inr (stack', ms', observed')"
    and "selfWithinTotal ms"
  shows "selfWithinTotal ms'"
proof (cases "i \<le> n")
  case True
  have "selfWithinTotal (fst (snd (stack', ms', observed')))"
    by (rule forLoop_invariant [OF assms(1) True, where P = "\<lambda>_ s. selfWithinTotal (fst (snd s))"])
       (use assms(2) in \<open>auto intro: eventBody_ok\<close>)
  then show ?thesis by simp
next
  case False
  with assms show ?thesis by (simp add: forLoop_done)
qed

lemma parseEventedProfile_ok:
  assumes "parseEventedProfile numStr profile fc ms pidx = Inr (ms', observed)" and "selfWithinTotal ms"
  shows "selfWithinTotal ms'"
  using assms
  by (auto simp: parseEventedProfile_def split: jsval.splits sum.splits if_splits prod.splits
           intro: eventLoop_ok)

lemma profileBody_ok:
  assumes "profileBody numStr fc entries pidx (ms, tot) = Inr (ms', tot')" and "selfWithinTotal ms"
  shows "selfWithinTotal ms'"
  using assms
  by (auto simp: profileBody_def Let_def split: sum.splits if_splits prod.splits
           intro: parseSampledProfile_ok parseEventedProfile_ok)

lemma profileLoop_ok:
  assumes "forLoop i n (profileBody numStr fc entries) (ms, tot) = Inr (ms', tot')"
    and "selfWithinTotal ms"
  shows "selfWithinTotal ms'"
proof (cases "i \<le> n")
  case True
  have "selfWithinTotal (fst (ms', tot'))"
    by (rule forLoop_invariant [OF assms(1) True, where P = "\<lambda>_ s. selfWithinTotal (fst s)"])
       (use assms(2) in \<open>auto intro: profileBody_ok\<close>)
  then show ?thesis by simp
next
  case False
  with assms show ?thesis by (simp add: forLoop_done)
qed

lemma frameLoop_ok:
  assumes "forLoop 0 n (frameBody numStr frames) [] = Inr ms0"
  shows "selfWithinTotal ms0"
  by (rule forLoop_invariant [OF assms, where P = "\<lambda>_ s. selfWithinTotal s"])
     (auto simp: selfWithinTotal_def frameBody_def split: sum.splits)

lemma stackLoop_ok:
  assumes "forLoop 0 j (stackBody sampleStack fc pidx sidx w) ms = Inr ms'" and "0 < w"
    and "selfWithinTotal ms"
  shows "selfWithinTotal ms'"
  using stackLoop_grows [OF assms(1)] assms(2,3) by (auto intro: onlyTotalGrows_selfWithinTotal)

lemma activeLoop_ok:
  assumes "forLoop 0 j (activeBody stack delta) ms = Inr ms'" and "0 < delta"
    and "selfWithinTotal ms"
  shows "selfWithinTotal ms'"
  using activeLoop_grows [OF assms(1)] assms(2,3) by (auto intro: onlyTotalGrows_selfWithinTotal)

text \<open>
  C4. When the parse succeeds, every entry of the final metrics table has a total time
  that is at least its self time. The same holds at every earlier point: after any prefix
  of the profile entries, after any prefix of the samples or of the events of the entry
  that follows, and after any prefix of the walk over one sample's stack or over the
  call stack of one window.
\<close>

theorem total_time_bounds_self_time:
  assumes "parseSpeedscopeProfile numStr payload = Inr result"
  shows "\<exists>frames entries ms0 msFinal tot.
      loadDocument payload = Inr (frames, entries)
    \<and> forLoop 0 (length frames) (frameBody numStr frames) [] = Inr ms0
    \<and> collectMetrics numStr payload = Inr (entries, msFinal, tot)
    \<and> list_all (\<lambda>m. selfTime m \<le> totalTime m) msFinal
    \<and> (\<forall>p ms t.
          forLoop 0 p (profileBody numStr (length frames) entries) (ms0, 0) = Inr (ms, t) \<longrightarrow>
            list_all (\<lambda>m. selfTime m \<le> totalTime m) ms
          \<and> (\<forall>samples weights k ms' obs.
                forLoop 0 k (sampleBody samples weights (length frames) p) (ms, 0) = Inr (ms', obs) \<longrightarrow>
                  list_all (\<lambda>m. selfTime m \<le> totalTime m) ms'
                \<and> (\<forall>sampleStack w j ms''.
                      0 < w \<and> forLoop 0 j (stackBody sampleStack (length frames) p k w) ms' = Inr ms'' \<longrightarrow>
                        list_all (\<lambda>m. selfTime m \<le> totalTime m) ms''))
          \<and> (\<forall>events k stack ms' obs.
                forLoop 0 k (eventBody numStr events (length frames) p) ([], ms, 0) = Inr (stack, ms', obs) \<longrightarrow>
                  list_all (\<lambda>m. selfTime m \<le> totalTime m) ms'
                \<and> (\<forall>delta j ms''.
                      0 < delta \<and> forLoop 0 j (activeBody stack delta) ms' = Inr ms'' \<longrightarrow>
                        list_all (\<lambda>m. selfTime m \<le> totalTime m) ms'')))"
proof -
  from assms obtain entries msFinal tot
    where c: "collectMetrics numStr payload = Inr (entries, msFinal, tot)"
    by (auto simp: parseSpeedscopeProfile_def split: sum.splits)
  then obtain frames ms0
    where d: "loadDocument payload = Inr (frames, entries)"
      and f: "forLoop 0 (length frames) (frameBody numStr frames) [] = Inr ms0"
      and l: "forLoop 0 (length entries) (profileBody numStr (length frames) entries) (ms0, 0) = Inr (msFinal, tot)"
    by (auto simp: collectMetrics_def split: sum.splits prod.splits)
  have ok0: "selfWithinTotal ms0" using f by (rule frameLoop_ok)
  have okF: "selfWithinTotal msFinal" using l ok0 by (rule profileLoop_ok)
  have inner: "list_all (\<lambda>m. selfTime m \<le> totalTime m) ms
          \<and> (\<forall>samples weights k ms' obs.
                forLoop 0 k (sampleBody samples weights (length frames) p) (ms, 0) = Inr (ms', obs) \<longrightarrow>
                  list_all (\<lambda>m. selfTime m \<le> totalTime m) ms'
                \<and> (\<forall>sampleStack w j ms''.
                      0 < w \<and> forLoop 0 j (stackBody sampleStack (length frames) p k w) ms' = Inr ms'' \<longrightarrow>
                        list_all (\<lambda>m. selfTime m \<le> totalTime m) ms''))
          \<and> (\<forall>events k stack ms' obs.
                forLoop 0 k (eventBody numStr events (length frames) p) ([], ms, 0) = Inr (stack, ms', obs) \<longrightarrow>
                  list_all (\<lambda>m. selfTime m \<le> totalTime m) ms'
                \<and> (\<forall>delta j ms''.
                      0 < delta \<and> forLoop 0 j (activeBody stack delta) ms' = Inr ms'' \<longrightarrow>
                        list_all (\<lambda>m. selfTime m \<le> totalTime m) ms''))"
    if p: "forLoop 0 p (profileBody numStr (length frames) entries) (ms0, 0) = Inr (ms, t)"
    for p ms t
  proof -
    have ok: "selfWithinTotal ms" using p ok0 by (rule profileLoop_ok)
    show ?thesis
      unfolding selfWithinTotal_def [symmetric]
      using ok by (blast intro: sampleLoop_ok stackLoop_ok eventLoop_ok activeLoop_ok)
  qed
  from okF have "list_all (\<lambda>m. selfTime m \<le> totalTime m) msFinal" by (simp add: selfWithinTotal_def)
  with d f c inner show ?thesis by blast
qed

lemma sampledDoc_collect:
  "\<exists>entries msFinal.
     collectMetrics numStr sampledDoc = Inr (entries, msFinal, 14)
   \<and> map totalTime msFinal = [14, 12, 2] \<and> map selfTime msFinal = [0, 12, 2]"
  by (simp add: sampledDoc_def eval_defs)

theorem total_time_bounds_self_time_witness:
  "parseSpeedscopeProfile (\<lambda>_. []) sampledDoc = Inr sampledResult
   \<and> (\<exists>entries msFinal tot.
         collectMetrics (\<lambda>_. []) sampledDoc = Inr (entries, msFinal, tot)
       \<and> list_all (\<lambda>m. selfTime m \<le> totalTime m) msFinal
       \<and> map totalTime msFinal = [14, 12, 2] \<and> map selfTime msFinal = [0, 12, 2])"
proof -
  obtain entries msFinal tot
    where c: "collectMetrics (\<lambda>_. []) sampledDoc = Inr (entries, msFinal, tot)"
      and ok: "list_all (\<lambda>m. selfTime m \<le> totalTime m) msFinal"
    using total_time_bounds_self_time [OF sampledDoc_parse [of "\<lambda>_. []"]]
    by (elim exE conjE) (rule that, assumption+)
  from sampledDoc_collect [of "\<lambda>_. []"] c
  have v: "map totalTime msFinal = [14, 12, 2] \<and> map selfTime msFinal = [0, 12, 2]"
    by auto
  show ?thesis
  proof (intro conjI exI)
    show "parseSpeedscopeProfile (\<lambda>_. []) sampledDoc = Inr sampledResult"
      by (rule sampledDoc_parse)
    show "collectMetrics (\<lambda>_. []) sampledDoc = Inr (entries, msFinal, tot)"
      by (rule c)
    show "list_all (\<lambda>m. selfTime m \<le> totalTime m) msFinal"
      by (rule ok)
    show "map totalTime msFinal = [14, 12, 2]" and "map selfTime msFinal = [0, 12, 2]"
      using v by simp_all
  qed
qed

section \<open>Evented profiles: unbalanced close\<close>

lemma sampleBody_length:
  assumes "sampleBody samples weights fc pidx k (ms, observed) = Inr (ms', observed')"
  shows "length ms' = length ms"
proof (cases "arrGet samples k")
  case (JArr sampleStack)
  show ?thesis
  proof (cases "resolveWeight weights pidx k")
    case (Inl e)
    with assms JArr show ?thesis by (simp add: sampleBody_def split: if_splits)
  next
    case (Inr w)
    show ?thesis
    proof (cases "sampleStack = [] \<or> w \<le> 0")
      case True
      with assms JArr Inr show ?thesis by (auto simp: sampleBody_def split: if_splits)
    next
      case False
      with assms JArr Inr obtain ms1 f
        where l: "forLoop 0 (length sampleStack) (stackBody sampleStack fc pidx k w) ms = Inr ms1"
          and m: "ms' = ms1[f := (ms1 ! f)\<lparr> selfTime := selfTime (ms1 ! f) + w \<rparr>]"
        by (auto simp: sampleBody_def mapGet_def split: sum.splits option.splits if_splits)
      from False have "0 \<le> w" by simp
      from stackLoop_grows [OF l this] have "length ms1 = length ms" by (simp add: onlyTotalGrows_nth)
      with m show ?thesis by simp
    qed
  qed
qed (use assms in \<open>simp_all add: sampleBody_def\<close>)

lemma parseSampledProfile_length:
  assumes "parseSampledProfile profile fc ms pidx = Inr (ms', observed)"
  shows "length ms' = length ms"
proof -
  from assms obtain samples
    where l: "forLoop 0 (length samples) (sampleBody samples (weightsOf profile) fc pidx) (ms, 0) = Inr (ms', observed)"
    by (auto simp: parseSampledProfile_def split: jsval.splits)
  have "length (fst (ms', observed)) = length ms"
    by (rule forLoop_invariant [OF l, where P = "\<lambda>_ s. length (fst s) = length ms"])
       (auto dest: sampleBody_length)
  then show ?thesis by simp
qed

lemma activeLoop_total:
  assumes "list_all (\<lambda>f. f < length ms) stack"
  shows "\<exists>ms'. forLoop 0 (length stack) (activeBody stack delta) ms = Inr ms' \<and> length ms' = length ms"
proof (rule forLoop_total [where P = "\<lambda>_ (s :: FrameMetrics list). length s = length ms"])
  fix j and s :: "FrameMetrics list"
  assume "j < length stack" and "length s = length ms"
  with assms have "stack ! j < length s" by (simp add: list_all_length)
  then show "\<exists>s'. activeBody stack delta j s = Inr s' \<and> length s' = length ms"
    using \<open>length s = length ms\<close> by (simp add: activeBody_def mapGet_def)
qed simp_all

lemma attributeDelta_total:
  assumes "arrGet events (i + 1) = JObj nx" and "getProp nx ''at'' = JNum nextAt" and "at' \<le> nextAt"
    and "list_all (\<lambda>f. f < length ms) stack"
  shows "\<exists>ms' observed'. attributeDelta events pidx i at' stack ms observed = Inr (ms', observed')"
proof (cases "nextAt - at' > 0 \<and> stack \<noteq> []")
  case True
  from activeLoop_total [OF assms(4), of "nextAt - at'"] obtain ms1
    where l: "forLoop 0 (length stack) (activeBody stack (nextAt - at')) ms = Inr ms1"
      and n: "length ms1 = length ms" by blast
  from True assms(4) have "last stack < length ms" by (simp add: list_all_length last_conv_nth)
  with n have "mapGet ms1 (last stack) = Some (ms1 ! last stack)" by (simp add: mapGet_def)
  with True l assms(1-3) show ?thesis
    by (simp add: attributeDelta_def asRecord_def asNumber_def Let_def)
next
  case False
  with assms(1-3) show ?thesis
    by (auto simp: attributeDelta_def asRecord_def asNumber_def Let_def)
qed

lemma attributeDelta_length:
  assumes "attributeDelta events pidx i at' stack ms observed = Inr (ms', observed')"
  shows "length ms' = length ms"
proof -
  from assms obtain nx nextAt
    where nx: "asRecord (arrGet events (i + 1)) (InvalidEventEntry pidx (i + 1)) = Inr nx"
      and na: "asNumber (getProp nx ''at'') (InvalidEventTimestamp pidx (i + 1)) = Inr nextAt"
    by (auto simp: attributeDelta_def split: sum.splits)
  show ?thesis
  proof (cases "nextAt - at' > 0 \<and> stack \<noteq> []")
    case True
    with assms nx na obtain ms1
      where l: "forLoop 0 (length stack) (activeBody stack (nextAt - at')) ms = Inr ms1"
        and m: "ms' = ms1[last stack := (ms1 ! last stack)\<lparr> selfTime := selfTime (ms1 ! last stack) + (nextAt - at') \<rparr>]"
      by (auto simp: attributeDelta_def Let_def mapGet_def split: sum.splits option.splits if_splits)
    from True have "0 \<le> nextAt - at'" by simp
    from activeLoop_grows [OF l this] have "length ms1 = length ms" by (simp add: onlyTotalGrows_nth)
    with m show ?thesis by simp
  next
    case False
    with assms nx na show ?thesis
      by (auto simp: attributeDelta_def Let_def split: if_splits)
  qed
qed

lemma list_all_butlast: "list_all P xs \<Longrightarrow> list_all P (butlast xs)"
  by (induction xs) auto

lemma eventBody_keeps:
  assumes "eventBody numStr events fc pidx i (stack, ms, observed) = Inr (stack', ms', observed')"
    and "list_all (\<lambda>f. f < fc) stack"
  shows "length ms' = length ms \<and> list_all (\<lambda>f. f < fc) stack'"
  using assms
  by (auto simp: eventBody_def Let_def split: sum.splits if_splits prod.splits
           dest: attributeDelta_length asIndex_Inr(1) intro: list_all_butlast)

lemma eventLoop_keeps:
  assumes "forLoop 0 n (eventBody numStr events fc pidx) ([], ms, 0) = Inr (stack', ms', observed')"
  shows "length ms' = length ms \<and> list_all (\<lambda>f. f < fc) stack'"
proof -
  have "length (fst (snd (stack', ms', observed'))) = length ms
      \<and> list_all (\<lambda>f. f < fc) (fst (stack', ms', observed'))"
    by (rule forLoop_invariant [OF assms, where P = "\<lambda>_ s. length (fst (snd s)) = length ms
          \<and> list_all (\<lambda>f. f < fc) (fst s)"])
       (auto dest: eventBody_keeps)
  then show ?thesis by simp
qed

lemma parseEventedProfile_length:
  assumes "parseEventedProfile numStr profile fc ms pidx = Inr (ms', observed)"
  shows "length ms' = length ms"
  using assms
  by (auto simp: parseEventedProfile_def split: jsval.splits sum.splits if_splits prod.splits
           dest: eventLoop_keeps)

lemma profileBody_length:
  assumes "profileBody numStr fc entries pidx (ms, tot) = Inr (ms', tot')"
  shows "length ms' = length ms"
  using assms
  by (auto simp: profileBody_def Let_def split: sum.splits if_splits prod.splits
           dest: parseSampledProfile_length parseEventedProfile_length)

lemma profileLoop_length:
  assumes "forLoop 0 n (profileBody numStr fc entries) (ms, tot) = Inr (ms', tot')"
  shows "length ms' = length ms"
proof -
  have "length (fst (ms', tot')) = length ms"
    by (rule forLoop_invariant [OF assms, where P = "\<lambda>_ s. length (fst s) = length ms"])
       (auto dest: profileBody_length)
  then show ?thesis by simp
qed

lemma frameLoop_length:
  assumes "forLoop 0 n (frameBody numStr frames) [] = Inr ms0"
  shows "length ms0 = n"
  by (rule forLoop_invariant [OF assms, where P = "\<lambda>j s. length s = j"])
     (auto simp: frameBody_def split: sum.splits)

text \<open>
  C2, as amended. When the loop over the events reaches a close event that decodes (its
  frame is a valid index, its timestamp a number) and whose look-ahead raises nothing (it
  is the last event, or the next event is an object with a numeric timestamp that is not
  smaller), and the call stack is empty or its top is not the event's frame, the whole
  parse fails with the unbalanced-stack error of that profile and event, carrying the
  popped frame (none for an empty stack) and the event's frame.
\<close>

theorem unbalanced_close_fails:
  assumes "loadDocument payload = Inr (frames, entries)"
    and "forLoop 0 (length frames) (frameBody numStr frames) [] = Inr ms0"
    and "pidx < length entries"
    and "forLoop 0 pidx (profileBody numStr (length frames) entries) (ms0, 0) = Inr (ms, tot)"
    and "arrGet entries pidx = JObj profile"
    and "jsString numStr (nullish (getProp profile ''type'') (JStr [])) = ''evented''"
    and "getProp profile ''events'' = JArr events"
    and "2 \<le> length events"
    and "i < length events"
    and "forLoop 0 i (eventBody numStr events (length frames) pidx) ([], ms, 0) = Inr (stack, msReached, observed)"
    and "arrGet events i = JObj event"
    and "jsString numStr (nullish (getProp event ''type'') (JStr [])) = ''C''"
    and "asIndex (getProp event ''frame'') (length frames) (InvalidEventFrame pidx i) = Inr frame"
    and "getProp event ''at'' = JNum at'"
    and "i + 1 < length events \<longrightarrow>
           (\<exists>nx nextAt. arrGet events (i + 1) = JObj nx \<and> getProp nx ''at'' = JNum nextAt \<and> at' \<le> nextAt)"
    and "stack = [] \<or> last stack \<noteq> frame"
  shows "parseSpeedscopeProfile numStr payload =
           Inl (UnbalancedStack pidx i (if stack = [] then None else Some (last stack)) frame)"
proof -
  let ?fc = "length frames"
  let ?err = "UnbalancedStack pidx i (if stack = [] then None else Some (last stack)) frame"
  have "length ms0 = ?fc" using assms(2) by (rule frameLoop_length)
  moreover have "length ms = length ms0" using assms(4) by (rule profileLoop_length)
  moreover from eventLoop_keeps [OF assms(10)]
  have "length msReached = length ms" and valid: "list_all (\<lambda>f. f < ?fc) stack" by simp_all
  ultimately have valid': "list_all (\<lambda>f. f < length msReached) stack" by simp
  have window: "\<exists>ms2 observed2.
      (if i < length events - 1 then attributeDelta events pidx i at' stack msReached observed
       else Inr (msReached, observed)) = Inr (ms2, observed2)"
  proof (cases "i < length events - 1")
    case True
    then have "i + 1 < length events" by simp
    with assms(15) obtain nx nextAt
      where "arrGet events (i + 1) = JObj nx" "getProp nx ''at'' = JNum nextAt" "at' \<le> nextAt"
      by blast
    from attributeDelta_total [OF this valid'] True show ?thesis by simp
  next
    case False
    then show ?thesis by simp
  qed
  then obtain ms2 observed2
    where w: "(if i < length events - 1 then attributeDelta events pidx i at' stack msReached observed
               else Inr (msReached, observed)) = Inr (ms2, observed2)"
    by blast
  have "eventBody numStr events ?fc pidx i (stack, msReached, observed) = Inl ?err"
    using assms(11-14,16) w
    by (simp add: eventBody_def asRecord_def asNumber_def Let_def)
  with assms(9,10)
  have "forLoop 0 (length events) (eventBody numStr events ?fc pidx) ([], ms, 0) = Inl ?err"
    by (intro forLoop_fails_at)
  then have "parseEventedProfile numStr profile ?fc ms pidx = Inl ?err"
    using assms(7,8) by (simp add: parseEventedProfile_def)
  then have "profileBody numStr ?fc entries pidx (ms, tot) = Inl ?err"
    using assms(5,6) by (simp add: profileBody_def asRecord_def Let_def)
  with assms(1-4) show ?thesis by (rule parse_fails_in_profile)
qed

theorem unbalanced_close_fails_witness:
  "parseSpeedscopeProfile (\<lambda>_. []) unbalancedDoc = Inl (UnbalancedStack 0 1 (Some 0) 1)"
proof -
  have "parseSpeedscopeProfile (\<lambda>_. []) unbalancedDoc =
          Inl (UnbalancedStack 0 1 (if [0::nat] = [] then None else Some (last [0])) 1)"
    by (rule unbalanced_close_fails [where frames = "[JObj [(''name'', JStr ''f'')], JObj [(''name'', JStr ''g'')]]"
          and entries = "[JObj unbalancedProfile]" and profile = unbalancedProfile
          and ms0 = twoFrames and ms = twoFrames and tot = 0 and msReached = twoFrames and observed = 0
          and events = "[JObj [(''type'', JStr ''O''), (''frame'', JNum 0), (''at'', JNum 0)],
                         JObj [(''type'', JStr ''C''), (''frame'', JNum 1), (''at'', JNum 1)],
                         JObj [(''type'', JStr ''C''), (''frame'', JNum 0), (''at'', JNum 2)]]"
          and event = "[(''type'', JStr ''C''), (''frame'', JNum 1), (''at'', JNum 1)]"
          and at' = 1])
       (simp_all add: unbalancedDoc_def unbalancedProfile_def twoFrames_def eval_defs)
  then show ?thesis by simp
qed

text \<open>
  The close event of a window that fails is never popped: a close on the empty stack whose
  successor has an earlier timestamp fails with the error of the timestamps (lines 232 to
  234), not with the unbalanced-stack error.
\<close>

theorem close_on_empty_stack_counterexample:
  "parseSpeedscopeProfile blankNumber closeThenEarlierDoc = Inl (NonMonotonicTimestamps 0)"
  by (simp add: closeThenEarlierDoc_def eval_defs)

section \<open>Recursive stacks\<close>

lemma recursionDoc_collect:
  "\<exists>entries m. collectMetrics numStr recursionDoc = Inr (entries, [m], 1) \<and> totalTime m = 2"
  by (simp add: recursionDoc_def eval_defs)

lemma recursionDoc_parse:
  "parseSpeedscopeProfile numStr recursionDoc =
     Inr \<lparr> hotspots = [\<lparr> hname = ''fib'', hfile = ''fib.ts'', selfTimeMs = 1, totalTimeMs = 2,
                            hsampleCount = 2, inclusivePct = 200, exclusivePct = 100, rank = 1 \<rparr>],
            totalSamples = 1, profileCount = 1 \<rparr>"
  by (simp add: recursionDoc_def eval_defs)

lemma stackLoop_counts:
  assumes "forLoop 0 n (stackBody sampleStack fc pidx sidx w) ms = Inr ms'" and "n \<le> length sampleStack"
  shows "length ms' = length ms
       \<and> (\<forall>f < length ms. totalTime (ms' ! f) = totalTime (ms ! f)
             + w * of_nat (length (filter (\<lambda>v. asIndex v fc (InvalidFrameReference pidx sidx) = Inr f)
                                     (take n sampleStack))))"
proof (rule forLoop_invariant [OF assms(1), where P = "\<lambda>j s. j \<le> n \<longrightarrow> length s = length ms
       \<and> (\<forall>f < length ms. totalTime (s ! f) = totalTime (ms ! f)
             + w * of_nat (length (filter (\<lambda>v. asIndex v fc (InvalidFrameReference pidx sidx) = Inr f)
                                     (take j sampleStack))))", THEN mp])
  fix j s s'
  assume j: "j < n"
    and P: "j \<le> n \<longrightarrow> length s = length ms
       \<and> (\<forall>f < length ms. totalTime (s ! f) = totalTime (ms ! f)
             + w * of_nat (length (filter (\<lambda>v. asIndex v fc (InvalidFrameReference pidx sidx) = Inr f)
                                     (take j sampleStack))))"
    and b: "stackBody sampleStack fc pidx sidx w j s = Inr s'"
  from j assms(2) have jl: "j < length sampleStack" by simp
  then have tk: "take (Suc j) sampleStack = take j sampleStack @ [sampleStack ! j]"
    by (simp add: take_Suc_conv_app_nth)
  from jl have ag: "arrGet sampleStack j = sampleStack ! j" by (simp add: arrGet_def)
  from stackBody_Inr [OF b] ag obtain g
    where g: "asIndex (sampleStack ! j) fc (InvalidFrameReference pidx sidx) = Inr g" "g < length s"
      and s': "s' = s[g := (s ! g)\<lparr> totalTime := totalTime (s ! g) + w,
                                     sampleCount := sampleCount (s ! g) + 1 \<rparr>]"
    by auto
  from P j have len: "length s = length ms"
    and tot: "\<And>f. f < length ms \<Longrightarrow> totalTime (s ! f) = totalTime (ms ! f)
             + w * of_nat (length (filter (\<lambda>v. asIndex v fc (InvalidFrameReference pidx sidx) = Inr f)
                                     (take j sampleStack)))"
    by simp_all
  show "Suc j \<le> n \<longrightarrow> length s' = length ms
       \<and> (\<forall>f < length ms. totalTime (s' ! f) = totalTime (ms ! f)
             + w * of_nat (length (filter (\<lambda>v. asIndex v fc (InvalidFrameReference pidx sidx) = Inr f)
                                     (take (Suc j) sampleStack))))"
    using len g by (auto simp: s' tk tot nth_list_update algebra_simps)
qed (simp_all)

text \<open>
  C8. A sample whose stack names one frame twice is a valid input on which the reported
  inclusive share is 200: the frame's total time (2) exceeds the observed total (1). In
  general the walk over a sample's stack adds the weight to a frame's total time once
  for every position of the stack that decodes to this frame.
\<close>

theorem recursive_stack_counts_each_occurrence:
  "(\<exists>result h entries m totalObserved.
       parseSpeedscopeProfile numStr recursionDoc = Inr result
     \<and> hotspots result = [h] \<and> inclusivePct h = 200 \<and> 100 < inclusivePct h
     \<and> collectMetrics numStr recursionDoc = Inr (entries, [m], totalObserved)
     \<and> totalObserved < totalTime m)
   \<and> (forLoop 0 (length sampleStack) (stackBody sampleStack fc pidx sidx w) ms = Inr ms' \<and> f < length ms
        \<longrightarrow> totalTime (ms' ! f) = totalTime (ms ! f)
              + w * of_nat (length (filter (\<lambda>v. asIndex v fc (InvalidFrameReference pidx sidx) = Inr f)
                                      sampleStack)))"
proof (intro conjI impI)
  from recursionDoc_collect [of numStr] obtain entries m
    where "collectMetrics numStr recursionDoc = Inr (entries, [m], 1)" "totalTime m = 2" by blast
  then show "\<exists>result h entries m totalObserved.
       parseSpeedscopeProfile numStr recursionDoc = Inr result
     \<and> hotspots result = [h] \<and> inclusivePct h = 200 \<and> 100 < inclusivePct h
     \<and> collectMetrics numStr recursionDoc = Inr (entries, [m], totalObserved)
     \<and> totalObserved < totalTime m"
    by (simp add: recursionDoc_parse)
next
  assume a: "forLoop 0 (length sampleStack) (stackBody sampleStack fc pidx sidx w) ms = Inr ms' \<and> f < length ms"
  then have l: "forLoop 0 (length sampleStack) (stackBody sampleStack fc pidx sidx w) ms = Inr ms'"
    and f: "f < length ms" by simp_all
  from stackLoop_counts [OF l] f
  show "totalTime (ms' ! f) = totalTime (ms ! f)
              + w * of_nat (length (filter (\<lambda>v. asIndex v fc (InvalidFrameReference pidx sidx) = Inr f)
                                      sampleStack))"
    by simp
qed

theorem recursive_stack_counts_each_occurrence_witness:
  "forLoop 0 (length [JNum 0, JNum 0]) (stackBody [JNum 0, JNum 0] 1 0 0 1) oneFrame
     = Inr [\<lparr> name = ''f'', file' = ''unknown'', selfTime = 0, totalTime = 2,
              sampleCount = 2, hotspotScore = 0 \<rparr>]
   \<and> totalTime ([\<lparr> name = ''f'', file' = ''unknown'', selfTime = 0, totalTime = 2,
                     sampleCount = 2, hotspotScore = 0 \<rparr>] ! 0)
       = totalTime (oneFrame ! 0)
         + 1 * of_nat (length (filter (\<lambda>v. asIndex v 1 (InvalidFrameReference 0 0) = Inr 0) [JNum 0, JNum 0]))"
proof -
  have l: "forLoop 0 (length [JNum 0, JNum 0]) (stackBody [JNum 0, JNum 0] 1 0 0 1) oneFrame
     = Inr [\<lparr> name = ''f'', file' = ''unknown'', selfTime = 0, totalTime = 2,
              sampleCount = 2, hotspotScore = 0 \<rparr>]"
    by (simp add: oneFrame_def eval_defs)
  have f: "(0::nat) < length oneFrame" by (simp add: oneFrame_def)
  from recursive_stack_counts_each_occurrence [THEN conjunct2, rule_format, OF conjI [OF l f]] l
  show ?thesis by (intro conjI)
qed

section \<open>Ranking in double precision\<close>



















lemma toDouble_not_nan: "toDouble x \<noteq> NaN"
proof -
  have "roundPos y \<noteq> NaN" for y by (simp add: roundPos_def Let_def)
  moreover have "neg v \<noteq> NaN" if "v \<noteq> NaN" for v using that by (cases v) simp_all
  ultimately show ?thesis by (simp add: toDouble_def)
qed























































end
